theory Spec2Isabelle
  imports Main "HOL-Library.Word"
begin

section \<open>AUTO: the session orchestration core\<close>

text \<open>
  A shallow embedding of the parts of the Go sources that the specification's testable
  properties speak about: the session manager (package \<open>session\<close>), the provider
  registry (package \<open>agent\<close>), the file-watch and the CLI agents and providers
  (package \<open>opencode\<close>) and the SQLite store (package \<open>store\<close>).

  Conventions.
  \<^item> A Go \<open>error\<close> is a value of \<open>error\<close>; a method returning \<open>error\<close> returns
    \<open>error option\<close> (\<open>None\<close> is \<open>nil\<close>), a method returning \<open>(T, error)\<close> returns
    \<open>error + T\<close>. A run-time panic is a value of \<open>go_panic\<close>.
  \<^item> A Go \<open>string\<close> is a byte sequence, here a \<open>string\<close> (a list of 8-bit \<open>char\<close>).
  \<^item> A Go \<open>map\<close> is a partial function. A \<open>range\<close> loop over a map visits the keys in
    an order chosen by the run time; the model takes that order as a parameter (a list
    of keys) and the theorems hold for every enumeration of the key set.
  \<^item> A \<open>time.Time\<close> is an \<open>int\<close>, the nanoseconds since the Unix epoch; a
    \<open>time.Duration\<close> is an \<open>int\<close> of nanoseconds. The reading of the clock
    (\<open>time.Now()\<close>) is a parameter \<open>now\<close> of every function that reads it.
  \<^item> Mutexes are not modelled: every method is taken as one atomic step.
\<close>

subsection \<open>Package agent: statuses, the Agent and Provider interfaces\<close>

datatype Status =
    StatusPending
  | StatusRunning
  | StatusIdle
  | StatusCompleted
  | StatusErrored
  | StatusContextLimit
  | StatusCancelled

fun Status_String :: "Status \<Rightarrow> string" where
  "Status_String StatusPending = ''pending''"
| "Status_String StatusRunning = ''running''"
| "Status_String StatusIdle = ''idle''"
| "Status_String StatusCompleted = ''completed''"
| "Status_String StatusErrored = ''errored''"
| "Status_String StatusContextLimit = ''context_limit''"
| "Status_String StatusCancelled = ''cancelled''"

datatype error = Error string

datatype go_panic = IndexOutOfRange nat nat

text \<open>
  A Go interface value is a method table bound to its receiver. The receivers are
  pointers to mutable objects, so every method reads, and the control methods change,
  the state \<open>'w\<close> of the objects behind the pointers.
\<close>

record 'w Agent =
  ID :: "'w \<Rightarrow> string"
  Name :: "'w \<Rightarrow> string"
  Directory :: "'w \<Rightarrow> string"
  CurrentTask :: "'w \<Rightarrow> string"
  SendInput :: "string \<Rightarrow> 'w \<Rightarrow> error option \<times> 'w"
  Terminate :: "'w \<Rightarrow> error option \<times> 'w"

record SpawnConfig =
  cfg_Type :: string
  cfg_Name :: string
  cfg_Directory :: string
  cfg_Prompt :: string
  cfg_Env :: "string \<rightharpoonup> string"

record 'w Provider =
  Discover :: "'w \<Rightarrow> (error + 'w Agent list) \<times> 'w"
  Spawn :: "SpawnConfig \<Rightarrow> 'w \<Rightarrow> (error + 'w Agent) \<times> 'w"

record 'w Registry =
  providers :: "string \<rightharpoonup> 'w Provider"

text \<open>\<open>Registry.Get\<close>: the \<open>(p, ok)\<close> pair is the option.\<close>

definition Registry_Get :: "'w Registry \<Rightarrow> string \<Rightarrow> 'w Provider option" where
  "Registry_Get r providerType = providers r providerType"

text \<open>
  \<open>Registry.List\<close> appends the providers in the order \<open>pks\<close> in which the run time
  enumerates the keys of \<open>r.providers\<close>.
\<close>

definition Registry_List :: "'w Registry \<Rightarrow> string list \<Rightarrow> 'w Provider list" where
  "Registry_List r pks = List.map_filter (providers r) pks"

text \<open>
  \<open>Registry.DiscoverAll\<close>: a provider whose \<open>Discover\<close> fails is skipped; the error
  returned is always \<open>nil\<close>, so only the list and the new state are returned.
\<close>

fun DiscoverAll_loop :: "'w Provider list \<Rightarrow> 'w Agent list \<Rightarrow> 'w \<Rightarrow> 'w Agent list \<times> 'w" where
  "DiscoverAll_loop [] allAgents w = (allAgents, w)"
| "DiscoverAll_loop (p # ps) allAgents w =
     (case Discover p w of
        (Inl err, w') \<Rightarrow> DiscoverAll_loop ps allAgents w'
      | (Inr agents, w') \<Rightarrow> DiscoverAll_loop ps (allAgents @ agents) w')"

definition Registry_DiscoverAll :: "'w Registry \<Rightarrow> string list \<Rightarrow> 'w \<Rightarrow> 'w Agent list \<times> 'w" where
  "Registry_DiscoverAll r pks w = DiscoverAll_loop (Registry_List r pks) [] w"

subsection \<open>Package session: the Manager\<close>

text \<open>
  Of the fields of \<open>Manager\<close> the live map \<open>agents\<close> and the registry are kept; the
  configuration, the store, the alert manager and the event callback are not read by
  the methods below.
\<close>

record 'w Manager =
  registry :: "'w Registry"
  agents :: "string \<rightharpoonup> 'w Agent"

text \<open>
  \<open>Manager.Spawn\<close>. The provider is looked up by \<open>config.Type\<close>; when it is absent the
  code takes \<open>m.registry.List()[0]\<close>, which panics on an empty slice.
\<close>

definition Manager_Spawn ::
  "'w Manager \<Rightarrow> string list \<Rightarrow> SpawnConfig \<Rightarrow> 'w \<Rightarrow>
     go_panic + ((error + 'w Agent) \<times> 'w Manager \<times> 'w)" where
  "Manager_Spawn m pks config w =
     (case (case Registry_Get (registry m) (cfg_Type config) of
              Some p \<Rightarrow> Inr p
            | None \<Rightarrow>
                (case Registry_List (registry m) pks of
                   [] \<Rightarrow> Inl (IndexOutOfRange 0 0)
                 | p # _ \<Rightarrow> Inr p)) of
        Inl panic \<Rightarrow> Inl panic
      | Inr provider \<Rightarrow>
          (case Spawn provider config w of
             (Inl err, w') \<Rightarrow> Inr (Inl err, m, w')
           | (Inr a, w') \<Rightarrow> Inr (Inr a, m\<lparr>agents := (agents m)(ID a w' \<mapsto> a)\<rparr>, w')))"

text \<open>\<open>Manager.Terminate\<close> and \<open>Manager.SendInput\<close>: a read of the live map, then the agent's own method.\<close>

definition Manager_Terminate :: "'w Manager \<Rightarrow> string \<Rightarrow> 'w \<Rightarrow> error option \<times> 'w Manager \<times> 'w" where
  "Manager_Terminate m id' w =
     (case agents m id' of
        None \<Rightarrow> (None, m, w)
      | Some a \<Rightarrow> (case Terminate a w of (err, w') \<Rightarrow> (err, m, w')))"

definition Manager_SendInput ::
  "'w Manager \<Rightarrow> string \<Rightarrow> string \<Rightarrow> 'w \<Rightarrow> error option \<times> 'w Manager \<times> 'w" where
  "Manager_SendInput m id' input w =
     (case agents m id' of
        None \<Rightarrow> (None, m, w)
      | Some a \<Rightarrow> (case SendInput a input w of (err, w') \<Rightarrow> (err, m, w')))"

text \<open>
  \<open>equalFold\<close> and \<open>containsIgnoreCase\<close> work on bytes: a byte in \<open>'A'..'Z'\<close> has
  \<open>'a' - 'A' = 32\<close> added before the comparison.
\<close>

definition lower_byte :: "char \<Rightarrow> char" where
  "lower_byte c =
     (if (65::nat) \<le> of_char c \<and> of_char c \<le> (90::nat) then char_of (of_char c + (32::nat)) else c)"

definition equalFold :: "string \<Rightarrow> string \<Rightarrow> bool" where
  "equalFold s t =
     (if length s \<noteq> length t then False
      else list_all (\<lambda>(sr, tr). lower_byte sr = lower_byte tr) (zip s t))"

text \<open>The loop runs \<open>i\<close> from \<open>0\<close> to \<open>sl - subl\<close> inclusive and compares \<open>s[i:i+subl]\<close>.\<close>

definition containsIgnoreCase :: "string \<Rightarrow> string \<Rightarrow> bool" where
  "containsIgnoreCase s substr =
     (let sl = length s; subl = length substr
      in if subl > sl then False
         else list_ex (\<lambda>i. equalFold (take subl (drop i s)) substr) [0 ..< Suc (sl - subl)])"

text \<open>
  \<open>Manager.Search\<close> ranges over the live map in the order \<open>ks\<close> and appends every agent
  one of whose four fields contains the query.
\<close>

definition Manager_Search :: "'w Manager \<Rightarrow> string list \<Rightarrow> string \<Rightarrow> 'w \<Rightarrow> 'w Agent list" where
  "Manager_Search m ks query w =
     filter (\<lambda>a. containsIgnoreCase (Name a w) query \<or>
                 containsIgnoreCase (ID a w) query \<or>
                 containsIgnoreCase (Directory a w) query \<or>
                 containsIgnoreCase (CurrentTask a w) query)
       (List.map_filter (agents m) ks)"

text \<open>
  \<open>Manager.Refresh\<close>. The first loop stores every discovered agent under its id and
  marks the id as seen; the second loop ranges over the live map as it is after the
  first loop (in the order \<open>ks\<close> that the run time picks) and deletes the ids not seen.
  \<open>DiscoverAll\<close> never returns an error, so the early return is dead and the method
  returns \<open>nil\<close>.
\<close>

fun Refresh_store ::
  "'w \<Rightarrow> 'w Agent list \<Rightarrow> (string \<rightharpoonup> 'w Agent) \<times> (string \<Rightarrow> bool) \<Rightarrow>
     (string \<rightharpoonup> 'w Agent) \<times> (string \<Rightarrow> bool)" where
  "Refresh_store w [] (mp, seen) = (mp, seen)"
| "Refresh_store w (a # as) (mp, seen) =
     Refresh_store w as (mp(ID a w \<mapsto> a), seen(ID a w := True))"

fun Refresh_evict :: "(string \<Rightarrow> bool) \<Rightarrow> string list \<Rightarrow> (string \<rightharpoonup> 'w Agent) \<Rightarrow> (string \<rightharpoonup> 'w Agent)" where
  "Refresh_evict seen [] mp = mp"
| "Refresh_evict seen (k # ks) mp =
     Refresh_evict seen ks (if \<not> seen k then mp(k := None) else mp)"

definition Manager_Refresh ::
  "'w Manager \<Rightarrow> string list \<Rightarrow> string list \<Rightarrow> 'w \<Rightarrow> error option \<times> 'w Manager \<times> 'w" where
  "Manager_Refresh m pks ks w =
     (case Registry_DiscoverAll (registry m) pks w of
        (discovered, w') \<Rightarrow>
          (case Refresh_store w' discovered (agents m, \<lambda>_. False) of
             (mp, seen) \<Rightarrow> (None, m\<lparr>agents := Refresh_evict seen ks mp\<rparr>, w')))"

subsection \<open>Package agent: the mock agent and provider of the tests\<close>

text \<open>
  \<open>MockAgent\<close> and \<open>MockProvider\<close> are the implementations of the two interfaces that
  the repository's own tests use. The mock objects live in a heap of cells addressed by
  numbers; the times, the metrics and the output of a mock agent are left out.
\<close>

record MockAgent =
  MockID :: string
  MockName :: string
  MockType :: string
  MockStatus :: Status
  MockDirectory :: string
  MockProjectID :: string
  MockCurrentTask :: string
  TerminateCalled :: bool
  SendInputCalled :: bool
  LastInput :: string

definition NewMockAgent :: "string \<Rightarrow> string \<Rightarrow> MockAgent" where
  "NewMockAgent id' name =
     \<lparr>MockID = id', MockName = name, MockType = ''mock'', MockStatus = StatusRunning,
      MockDirectory = ''/test/dir'', MockProjectID = ''test-project'',
      MockCurrentTask = ''test task'', TerminateCalled = False, SendInputCalled = False,
      LastInput = []\<rparr>"

record MockWorld =
  mock_cells :: "nat \<Rightarrow> MockAgent"
  MockAgents :: "nat list"
  mock_next :: nat

text \<open>The interface value of the mock agent at address \<open>p\<close>.\<close>

definition MockAgent_iface :: "nat \<Rightarrow> MockWorld Agent" where
  "MockAgent_iface p =
     \<lparr>ID = (\<lambda>w. MockID (mock_cells w p)),
      Name = (\<lambda>w. MockName (mock_cells w p)),
      Directory = (\<lambda>w. MockDirectory (mock_cells w p)),
      CurrentTask = (\<lambda>w. MockCurrentTask (mock_cells w p)),
      SendInput = (\<lambda>input w.
        (None, w\<lparr>mock_cells := (mock_cells w)
                   (p := (mock_cells w p)\<lparr>SendInputCalled := True, LastInput := input\<rparr>)\<rparr>)),
      Terminate = (\<lambda>w.
        (None, w\<lparr>mock_cells := (mock_cells w)
                   (p := (mock_cells w p)\<lparr>TerminateCalled := True, MockStatus := StatusCancelled\<rparr>)\<rparr>))\<rparr>"

definition MockProvider_iface :: "MockWorld Provider" where
  "MockProvider_iface =
     \<lparr>Discover = (\<lambda>w. (Inr (map MockAgent_iface (MockAgents w)), w)),
      Spawn = (\<lambda>config w.
        (Inr (MockAgent_iface (mock_next w)),
         w\<lparr>mock_cells := (mock_cells w)
              (mock_next w := (NewMockAgent (cfg_Name config @ ''-id'') (cfg_Name config))
                                \<lparr>MockDirectory := cfg_Directory config\<rparr>),
           MockAgents := MockAgents w @ [mock_next w],
           mock_next := Suc (mock_next w)\<rparr>))\<rparr>"

subsection \<open>Time\<close>

text \<open>
  \<open>time.Since\<close> saturates at the least and the greatest \<open>Duration\<close> (a signed 64-bit
  count of nanoseconds).
\<close>

definition Second :: int where
  "Second = 1000000000"

definition Minute :: int where
  "Minute = 60 * Second"

definition UnixMilli :: "int \<Rightarrow> int" where
  "UnixMilli msec = msec * 1000000"

definition Since :: "int \<Rightarrow> int \<Rightarrow> int" where
  "Since now t = max (- 9223372036854775808) (min 9223372036854775807 (now - t))"

subsection \<open>Package opencode: the storage tree\<close>

text \<open>
  The JSON documents of the storage tree, with the fields that the code reads.
  Timestamps are milliseconds since the epoch.
\<close>

record SessionData =
  sd_ID :: string
  sd_ProjectID :: string
  sd_Directory :: string
  sd_ParentID :: string
  sd_Title :: string
  sd_Created :: int
  sd_Updated :: int

record MessageData =
  md_ID :: string
  md_SessionID :: string
  md_Role :: string
  md_Created :: int
  md_Title :: string

record PartData =
  pd_ID :: string
  pd_MessageID :: string
  pd_Type :: string
  pd_Created :: int
  pd_Text :: string
  pd_State :: string

text \<open>
  What the file system answers. \<open>ReadDir\<close> gives the entries of a directory as pairs
  (\<open>IsDir\<close>, \<open>Name\<close>), or fails; reading and unmarshalling a file gives the document or
  fails. Where the code skips a file on any failure the answer is an option.
\<close>

datatype 'a dir_result = NotExist | ReadError error | Entries "'a list"

record Storage =
  ReadDir :: "string \<Rightarrow> (bool \<times> string) dir_result"
  read_session :: "string \<Rightarrow> error + SessionData"
  read_message :: "string \<Rightarrow> MessageData option"
  read_part :: "string \<Rightarrow> PartData option"

text \<open>
  \<open>Join\<close> is \<open>filepath.Join\<close> on non-empty, clean elements; the cleaning of the result
  and the dropping of empty elements are not modelled.
\<close>

definition Join :: "string \<Rightarrow> string \<Rightarrow> string" where
  "Join dir name = dir @ ''/'' @ name"

definition HasSuffix :: "string \<Rightarrow> string \<Rightarrow> bool" where
  "HasSuffix s suffix =
     (length suffix \<le> length s \<and> drop (length s - length suffix) s = suffix)"

text \<open>The entries a loop looks at when the error of \<open>ReadDir\<close> is dropped or skipped.\<close>

definition entries_or_nil :: "'a dir_result \<Rightarrow> 'a list" where
  "entries_or_nil r = (case r of Entries es \<Rightarrow> es | _ \<Rightarrow> [])"

subsection \<open>Package opencode: the file-watch agent\<close>

text \<open>
  The record keeps the fields that discovery and the status derivation read or write.
  The output buffer, the current task, the metrics and the last error are written by
  \<open>loadParts\<close> and \<open>extractCurrentTask\<close> only and are left out with these two functions.
\<close>

record OpenCodeAgent =
  oc_id :: string
  oc_name :: string
  oc_directory :: string
  oc_projectID :: string
  oc_parentID :: string
  oc_storagePath :: string
  oc_sessionFile :: string
  oc_status :: Status
  oc_startTime :: int
  oc_lastActivity :: int
  oc_messages :: "MessageData list"
  oc_loaded :: bool

definition window_status :: "int \<Rightarrow> Status" where
  "window_status d =
     (if d < 60 * Second then StatusRunning
      else if d < 30 * Minute then StatusIdle
      else StatusCompleted)"

definition determineStatusFast :: "int \<Rightarrow> OpenCodeAgent \<Rightarrow> OpenCodeAgent" where
  "determineStatusFast now a = a\<lparr>oc_status := window_status (Since now (oc_lastActivity a))\<rparr>"

text \<open>
  \<open>NewOpenCodeAgent\<close> fails when the session file cannot be read or parsed. The code
  wraps the cause (\<open>failed to read session file\<close>, \<open>failed to parse session file\<close>);
  the model returns the cause itself, and every caller below drops it.
\<close>

definition NewOpenCodeAgent :: "int \<Rightarrow> Storage \<Rightarrow> string \<Rightarrow> string \<Rightarrow> error + OpenCodeAgent" where
  "NewOpenCodeAgent now fs storagePath sessionFilePath =
     (case read_session fs sessionFilePath of
        Inl err \<Rightarrow> Inl err
      | Inr session \<Rightarrow>
          Inr (determineStatusFast now
            \<lparr>oc_id = sd_ID session, oc_name = sd_Title session,
             oc_directory = sd_Directory session, oc_projectID = sd_ProjectID session,
             oc_parentID = sd_ParentID session, oc_storagePath = storagePath,
             oc_sessionFile = sessionFilePath, oc_status = StatusIdle,
             oc_startTime = UnixMilli (sd_Created session),
             oc_lastActivity = UnixMilli (sd_Updated session),
             oc_messages = [], oc_loaded = False\<rparr>))"

text \<open>
  \<open>loadMessages\<close>: a missing directory leaves the messages as they are; another
  failure is returned; otherwise the readable \<open>.json\<close> files replace the messages, sorted
  by creation time. (\<open>sort.Slice\<close> may order messages of equal time either way; the
  model keeps them in directory order.)
\<close>

definition loadMessages :: "Storage \<Rightarrow> OpenCodeAgent \<Rightarrow> error + OpenCodeAgent" where
  "loadMessages fs a =
     (let messagesPath = Join (Join (oc_storagePath a) ''message'') (oc_id a)
      in case ReadDir fs messagesPath of
           NotExist \<Rightarrow> Inr a
         | ReadError err \<Rightarrow> Inl err
         | Entries entries \<Rightarrow>
             Inr (a\<lparr>oc_messages :=
               sort_key md_Created
                 (List.map_filter
                    (\<lambda>(isDir, name).
                       if isDir \<or> \<not> HasSuffix name ''.json'' then None
                       else read_message fs (Join messagesPath name))
                    entries)\<rparr>))"

text \<open>
  The two nested loops of \<open>determineStatus\<close> return at the first part whose state is
  \<open>running\<close>, or whose state is \<open>error\<close> while the last message is younger than five
  minutes.
\<close>

datatype scan_result = SawRunning | SawError int

fun scan_entries :: "Storage \<Rightarrow> string \<Rightarrow> int \<Rightarrow> (bool \<times> string) list \<Rightarrow> scan_result option" where
  "scan_entries fs partsPath d [] = None"
| "scan_entries fs partsPath d ((isDir, name) # entries) =
     (if isDir \<or> \<not> HasSuffix name ''.json'' then scan_entries fs partsPath d entries
      else case read_part fs (Join partsPath name) of
             None \<Rightarrow> scan_entries fs partsPath d entries
           | Some part \<Rightarrow>
               if pd_State part = ''running'' then Some SawRunning
               else if pd_State part = ''error'' \<and> d < 5 * Minute
                 then Some (SawError (pd_Created part))
               else scan_entries fs partsPath d entries)"

fun scan_messages :: "Storage \<Rightarrow> string \<Rightarrow> int \<Rightarrow> MessageData list \<Rightarrow> scan_result option" where
  "scan_messages fs storagePath d [] = None"
| "scan_messages fs storagePath d (msg # msgs) =
     (let partsPath = Join (Join storagePath ''part'') (md_ID msg)
      in case scan_entries fs partsPath d (entries_or_nil (ReadDir fs partsPath)) of
           Some r \<Rightarrow> Some r
         | None \<Rightarrow> scan_messages fs storagePath d msgs)"

definition determineStatus :: "int \<Rightarrow> Storage \<Rightarrow> OpenCodeAgent \<Rightarrow> OpenCodeAgent" where
  "determineStatus now fs a =
     (if length (oc_messages a) = 0 then a\<lparr>oc_status := StatusPending\<rparr>
      else
        let lastMsgTime = UnixMilli (md_Created (last (oc_messages a)));
            timeSinceLastActivity = Since now lastMsgTime
        in case scan_messages fs (oc_storagePath a) timeSinceLastActivity (oc_messages a) of
             Some SawRunning \<Rightarrow> a\<lparr>oc_status := StatusRunning, oc_lastActivity := now\<rparr>
           | Some (SawError created) \<Rightarrow>
               a\<lparr>oc_status := StatusErrored, oc_lastActivity := UnixMilli created\<rparr>
           | None \<Rightarrow>
               a\<lparr>oc_status := window_status timeSinceLastActivity,
                 oc_lastActivity := lastMsgTime\<rparr>)"

definition LoadFullHistory :: "int \<Rightarrow> Storage \<Rightarrow> OpenCodeAgent \<Rightarrow> OpenCodeAgent" where
  "LoadFullHistory now fs a =
     (if oc_loaded a then a
      else (determineStatus now fs (case loadMessages fs a of Inl err \<Rightarrow> a | Inr a' \<Rightarrow> a'))
             \<lparr>oc_loaded := True\<rparr>)"

definition Refresh :: "int \<Rightarrow> Storage \<Rightarrow> OpenCodeAgent \<Rightarrow> error option \<times> OpenCodeAgent" where
  "Refresh now fs a =
     (case read_session fs (oc_sessionFile a) of
        Inl err \<Rightarrow> (Some err, a)
      | Inr session \<Rightarrow>
          (let a1 = a\<lparr>oc_name := sd_Title session,
                      oc_lastActivity := UnixMilli (sd_Updated session)\<rparr>
           in case loadMessages fs a1 of
                Inl err \<Rightarrow> (Some err, a1)
              | Inr a2 \<Rightarrow> (None, determineStatus now fs a2)))"

definition OpenCodeAgent_Terminate :: "OpenCodeAgent \<Rightarrow> error option \<times> OpenCodeAgent" where
  "OpenCodeAgent_Terminate a = (None, a\<lparr>oc_status := StatusCancelled\<rparr>)"

subsection \<open>Package opencode: the CLI agent\<close>

record CLISession =
  cs_ID :: string
  cs_Title :: string
  cs_Updated :: int
  cs_Created :: int
  cs_ProjectID :: string
  cs_Directory :: string

record CLIAgent =
  cli_id :: string
  cli_name :: string
  cli_directory :: string
  cli_projectID :: string
  cli_parentID :: string
  cli_status :: Status
  cli_startTime :: int
  cli_lastActivity :: int

definition CLI_determineStatus :: "int \<Rightarrow> CLIAgent \<Rightarrow> CLIAgent" where
  "CLI_determineStatus now a = a\<lparr>cli_status := window_status (Since now (cli_lastActivity a))\<rparr>"

definition NewOpenCodeAgentFromCLI :: "int \<Rightarrow> CLISession \<Rightarrow> CLIAgent" where
  "NewOpenCodeAgentFromCLI now session =
     CLI_determineStatus now
       \<lparr>cli_id = cs_ID session, cli_name = cs_Title session,
        cli_directory = cs_Directory session, cli_projectID = cs_ProjectID session,
        cli_parentID = [], cli_status = StatusIdle,
        cli_startTime = UnixMilli (cs_Created session),
        cli_lastActivity = UnixMilli (cs_Updated session)\<rparr>"

definition CLI_Update :: "int \<Rightarrow> CLISession \<Rightarrow> CLIAgent \<Rightarrow> CLIAgent" where
  "CLI_Update now session a =
     CLI_determineStatus now
       (a\<lparr>cli_name := cs_Title session, cli_lastActivity := UnixMilli (cs_Updated session)\<rparr>)"

definition CLI_Terminate :: "CLIAgent \<Rightarrow> error option \<times> CLIAgent" where
  "CLI_Terminate a = (None, a\<lparr>cli_status := StatusCancelled\<rparr>)"

subsection \<open>Package opencode: the CLI provider\<close>

text \<open>
  The CLI provider keeps its own index of pointers to CLI agents. What the command
  \<open>opencode session list\<close> answers (\<open>fetchSessions\<close>) is a parameter: an error or the
  list of sessions.
\<close>

record CLIHeap =
  cli_cells :: "nat \<rightharpoonup> CLIAgent"
  cli_next :: nat

record CLIProvider =
  cp_maxAge :: int
  cp_maxSessions :: int
  cp_agents :: "string \<rightharpoonup> nat"

text \<open>
  The loop of the CLI provider's \<open>Discover\<close>: a session older than the cutoff is
  skipped; a session whose id is in the index updates the object behind the indexed
  pointer and appends that pointer; any other session gets a new object, which is
  indexed and appended.
\<close>

fun CLI_Discover_loop ::
  "int \<Rightarrow> int \<Rightarrow> CLISession list \<Rightarrow>
     (string \<rightharpoonup> nat) \<times> nat list \<times> CLIHeap \<Rightarrow> (string \<rightharpoonup> nat) \<times> nat list \<times> CLIHeap" where
  "CLI_Discover_loop now maxAge [] st = st"
| "CLI_Discover_loop now maxAge (session # rest) (index, found, h) =
     (if maxAge > 0 \<and> UnixMilli (cs_Updated session) < now - maxAge
      then CLI_Discover_loop now maxAge rest (index, found, h)
      else case index (cs_ID session) of
             Some existing \<Rightarrow>
               CLI_Discover_loop now maxAge rest
                 (index, found @ [existing],
                  h\<lparr>cli_cells := (cli_cells h)
                       (existing := map_option (CLI_Update now session) (cli_cells h existing))\<rparr>)
           | None \<Rightarrow>
               CLI_Discover_loop now maxAge rest
                 (index(cs_ID session \<mapsto> cli_next h), found @ [cli_next h],
                  h\<lparr>cli_cells := (cli_cells h)(cli_next h \<mapsto> NewOpenCodeAgentFromCLI now session),
                    cli_next := Suc (cli_next h)\<rparr>))"

definition CLI_Provider_Discover ::
  "int \<Rightarrow> error + CLISession list \<Rightarrow> CLIProvider \<Rightarrow> CLIHeap \<Rightarrow>
     (error + nat list) \<times> CLIProvider \<times> CLIHeap" where
  "CLI_Provider_Discover now fetched p h =
     (case fetched of
        Inl err \<Rightarrow> (Inl err, p, h)
      | Inr listed \<Rightarrow>
          (case CLI_Discover_loop now (cp_maxAge p) listed (cp_agents p, [], h) of
             (index, found, h') \<Rightarrow> (Inr found, p\<lparr>cp_agents := index\<rparr>, h')))"

subsection \<open>Package opencode: the file-watch provider\<close>

text \<open>
  The provider's index maps a session id to a pointer. Pointers are addresses of a heap
  of agent objects; \<open>alloc\<close> is what \<open>&OpenCodeAgent{...}\<close> does: it takes an address
  that no object has had so far.
\<close>

record Heap =
  cells :: "nat \<rightharpoonup> OpenCodeAgent"
  next_addr :: nat

definition alloc :: "OpenCodeAgent \<Rightarrow> Heap \<Rightarrow> nat \<times> Heap" where
  "alloc a h = (next_addr h, h\<lparr>cells := (cells h)(next_addr h \<mapsto> a), next_addr := Suc (next_addr h)\<rparr>)"

record FileProvider =
  fp_storagePath :: string
  fp_maxAge :: int
  fp_agents :: "string \<rightharpoonup> nat"

definition Errorf :: "string \<Rightarrow> error \<Rightarrow> error" where
  "Errorf prefix err = (case err of Error msg \<Rightarrow> Error (prefix @ msg))"

text \<open>
  The inner loop of \<open>Discover\<close> over the files of one project directory. The state of
  the loop is the index, the slice \<open>agents\<close> (here \<open>found\<close>) and the heap.
\<close>

fun Discover_sessionFiles ::
  "int \<Rightarrow> Storage \<Rightarrow> string \<Rightarrow> int \<Rightarrow> string \<Rightarrow> (bool \<times> string) list \<Rightarrow>
     (string \<rightharpoonup> nat) \<times> nat list \<times> Heap \<Rightarrow> (string \<rightharpoonup> nat) \<times> nat list \<times> Heap" where
  "Discover_sessionFiles now fs storagePath maxAge projectPath [] st = st"
| "Discover_sessionFiles now fs storagePath maxAge projectPath ((isDir, name) # files) (index, found, h) =
     (if isDir \<or> \<not> HasSuffix name ''.json''
      then Discover_sessionFiles now fs storagePath maxAge projectPath files (index, found, h)
      else case NewOpenCodeAgent now fs storagePath (Join projectPath name) of
             Inl err \<Rightarrow>
               Discover_sessionFiles now fs storagePath maxAge projectPath files (index, found, h)
           | Inr a \<Rightarrow>
               (case alloc a h of
                  (p, h') \<Rightarrow>
                    if maxAge > 0 \<and> Since now (oc_lastActivity a) > maxAge
                    then Discover_sessionFiles now fs storagePath maxAge projectPath files
                           (index, found, h')
                    else Discover_sessionFiles now fs storagePath maxAge projectPath files
                           (index(oc_id a \<mapsto> p), found @ [p], h')))"

fun Discover_projectDirs ::
  "int \<Rightarrow> Storage \<Rightarrow> string \<Rightarrow> int \<Rightarrow> string \<Rightarrow> (bool \<times> string) list \<Rightarrow>
     (string \<rightharpoonup> nat) \<times> nat list \<times> Heap \<Rightarrow> (string \<rightharpoonup> nat) \<times> nat list \<times> Heap" where
  "Discover_projectDirs now fs storagePath maxAge sessionBasePath [] st = st"
| "Discover_projectDirs now fs storagePath maxAge sessionBasePath ((isDir, name) # dirs) st =
     (if \<not> isDir
      then Discover_projectDirs now fs storagePath maxAge sessionBasePath dirs st
      else case ReadDir fs (Join sessionBasePath name) of
             Entries sessionFiles \<Rightarrow>
               Discover_projectDirs now fs storagePath maxAge sessionBasePath dirs
                 (Discover_sessionFiles now fs storagePath maxAge (Join sessionBasePath name)
                    sessionFiles st)
           | _ \<Rightarrow> Discover_projectDirs now fs storagePath maxAge sessionBasePath dirs st)"

text \<open>
  \<open>Provider.Discover\<close> replaces the index by an empty map before it reads the tree.
  It returns the slice of pointers, the provider and the heap.
\<close>

definition Provider_Discover ::
  "int \<Rightarrow> Storage \<Rightarrow> FileProvider \<Rightarrow> Heap \<Rightarrow> (error + nat list) \<times> FileProvider \<times> Heap" where
  "Provider_Discover now fs p h =
     (let p0 = p\<lparr>fp_agents := Map.empty\<rparr>;
          sessionBasePath = Join (fp_storagePath p) ''session''
      in case ReadDir fs sessionBasePath of
           NotExist \<Rightarrow> (Inr [], p0, h)
         | ReadError err \<Rightarrow> (Inl (Errorf ''failed to read session directory: '' err), p0, h)
         | Entries projectDirs \<Rightarrow>
             (case Discover_projectDirs now fs (fp_storagePath p) (fp_maxAge p) sessionBasePath
                     projectDirs (Map.empty, [], h) of
                (index, found, h') \<Rightarrow> (Inr found, p0\<lparr>fp_agents := index\<rparr>, h')))"

text \<open>\<open>Provider.Get\<close> looks the id up in the index.\<close>

definition Provider_Get :: "FileProvider \<Rightarrow> string \<Rightarrow> error + nat" where
  "Provider_Get p id' =
     (case fp_agents p id' of Some a \<Rightarrow> Inr a | None \<Rightarrow> Inl (Error (''agent not found: '' @ id')))"

subsection \<open>Package agent: the fan-in of Registry.WatchAll\<close>

text \<open>
  A channel is its buffer and its closed flag; the channels of \<open>WatchAll\<close> and of the
  providers have capacity 100. \<open>WatchAll\<close> makes the merged channel, starts one
  forwarding goroutine for every provider whose \<open>Watch\<close> succeeded and returns. A
  forwarder ranges over its provider's channel: it receives an event, then selects
  between the send to the merged channel and the context's \<open>Done\<close>; it returns when
  the provider's channel is closed and empty, or on \<open>Done\<close>.
\<close>

record 'e chan =
  buf :: "'e list"
  closed :: bool

datatype 'e forwarder = Receiving | Selecting 'e | Returned

record 'e FanIn =
  upstream :: "'e chan list"
  forwarders :: "'e forwarder list"
  merged :: "'e chan"
  ctx_done :: bool

definition chan_cap :: nat where
  "chan_cap = 100"

definition make_chan :: "'e chan" where
  "make_chan = \<lparr>buf = [], closed = False\<rparr>"

definition WatchAll :: "'e chan list \<Rightarrow> 'e FanIn" where
  "WatchAll chs =
     \<lparr>upstream = chs, forwarders = map (\<lambda>_. Receiving) chs, merged = make_chan, ctx_done = False\<rparr>"

text \<open>
  The steps of the goroutines. A provider sends an event or closes its channel (its
  \<open>Watch\<close> goroutine has \<open>defer close(events)\<close>); the caller cancels the context; the
  consumer (\<open>Manager.processEvents\<close>) receives from the merged channel; a forwarder
  does one of its three moves. A step that is not enabled gives \<open>None\<close>.
\<close>

datatype 'e action =
    Cancel
  | ProviderSend nat 'e
  | ProviderClose nat
  | ForwarderReceive nat
  | ForwarderSend nat
  | ForwarderDone nat
  | Consume

fun step :: "'e action \<Rightarrow> 'e FanIn \<Rightarrow> 'e FanIn option" where
  "step Cancel s = Some (s\<lparr>ctx_done := True\<rparr>)"
| "step (ProviderSend i e) s =
     (if i < length (upstream s) \<and> \<not> closed (upstream s ! i)
         \<and> length (buf (upstream s ! i)) < chan_cap
      then Some (s\<lparr>upstream := (upstream s)
                     [i := (upstream s ! i)\<lparr>buf := buf (upstream s ! i) @ [e]\<rparr>]\<rparr>)
      else None)"
| "step (ProviderClose i) s =
     (if i < length (upstream s) \<and> \<not> closed (upstream s ! i)
      then Some (s\<lparr>upstream := (upstream s)[i := (upstream s ! i)\<lparr>closed := True\<rparr>]\<rparr>)
      else None)"
| "step (ForwarderReceive i) s =
     (if i < length (upstream s) \<and> i < length (forwarders s) \<and> forwarders s ! i = Receiving
      then (case buf (upstream s ! i) of
              e # rest \<Rightarrow>
                Some (s\<lparr>upstream := (upstream s)[i := (upstream s ! i)\<lparr>buf := rest\<rparr>],
                        forwarders := (forwarders s)[i := Selecting e]\<rparr>)
            | [] \<Rightarrow>
                if closed (upstream s ! i)
                then Some (s\<lparr>forwarders := (forwarders s)[i := Returned]\<rparr>)
                else None)
      else None)"
| "step (ForwarderSend i) s =
     (if i < length (forwarders s) \<and> length (buf (merged s)) < chan_cap
      then (case forwarders s ! i of
              Selecting e \<Rightarrow>
                Some (s\<lparr>merged := (merged s)\<lparr>buf := buf (merged s) @ [e]\<rparr>,
                        forwarders := (forwarders s)[i := Receiving]\<rparr>)
            | _ \<Rightarrow> None)
      else None)"
| "step (ForwarderDone i) s =
     (if i < length (forwarders s) \<and> ctx_done s
      then (case forwarders s ! i of
              Selecting e \<Rightarrow> Some (s\<lparr>forwarders := (forwarders s)[i := Returned]\<rparr>)
            | _ \<Rightarrow> None)
      else None)"
| "step Consume s =
     (case buf (merged s) of
        e # rest \<Rightarrow> Some (s\<lparr>merged := (merged s)\<lparr>buf := rest\<rparr>\<rparr>)
      | [] \<Rightarrow> None)"

fun run :: "'e action list \<Rightarrow> 'e FanIn \<Rightarrow> 'e FanIn option" where
  "run [] s = Some s"
| "run (a # as) s = (case step a s of None \<Rightarrow> None | Some s' \<Rightarrow> run as s')"

text \<open>Everything is over: the context is cancelled, every provider channel is closed and
  empty, every forwarder has returned.\<close>

definition all_drained :: "'e FanIn \<Rightarrow> bool" where
  "all_drained s \<longleftrightarrow>
     ctx_done s \<and> list_all (\<lambda>c. closed c \<and> buf c = []) (upstream s)
       \<and> list_all (\<lambda>f. f = Returned) (forwarders s)"

subsection \<open>Package store: the SQLite projection\<close>

text \<open>
  The database is the content of its four tables. A table with a primary key is a map
  from the key to the other columns; \<open>output_chunks\<close> is the list of its rows together
  with the counter that \<open>AUTOINCREMENT\<close> keeps (the largest row id ever given). A
  nullable column that the code reads through \<open>sql.NullTime\<close> or \<open>sql.NullString\<close> is
  an option, \<open>None\<close> being \<open>NULL\<close>; the columns of \<open>sessions\<close> carry the prefix \<open>c_\<close>. The columns \<open>created_at\<close> and \<open>updated_at\<close>, which no
  query reads, are left out. The statements are taken to succeed: the failures of the
  database file itself are outside the model. Times are compared as instants.

  A \<open>float64\<close> is only copied, never computed with: it is its 64 bits. (What the
  driver makes of a cost that is not a number or is a negative zero is not modelled.)
\<close>

type_synonym float64 = "64 word"

record SessionRecord =
  sr_ID :: string
  sr_AgentID :: string
  sr_AgentType :: string
  sr_AgentName :: string
  sr_Directory :: string
  sr_ProjectID :: string
  sr_Status :: string
  sr_StartTime :: int
  sr_EndTime :: int
  sr_LastActivity :: int
  sr_TokensIn :: int
  sr_TokensOut :: int
  sr_EstimatedCost :: float64
  sr_ToolCalls :: int
  sr_ErrorCount :: int
  sr_Output :: string
  sr_Metadata :: string

record session_row =
  c_agent_id :: string
  c_agent_type :: string
  c_agent_name :: string
  c_directory :: string
  c_project_id :: string
  c_status :: string
  c_start_time :: int
  c_end_time :: "int option"
  c_last_activity :: "int option"
  c_tokens_in :: int
  c_tokens_out :: int
  c_estimated_cost :: float64
  c_tool_calls :: int
  c_error_count :: int
  c_output :: "string option"
  c_metadata :: "string option"

record alert_row =
  alert_agent_id :: "string option"
  alert_level :: string
  alert_message :: string
  alert_timestamp :: int
  alert_read :: bool
  alert_metadata :: "string option"

record metric_row =
  metric_agent_id :: string
  metric_name :: string
  metric_value :: float64
  metric_timestamp :: int

record chunk_row =
  chunk_id :: nat
  chunk_session_id :: string
  chunk :: string
  chunk_timestamp :: int

record Store =
  sessions :: "string \<rightharpoonup> session_row"
  alerts :: "string \<rightharpoonup> alert_row"
  metrics :: "string \<rightharpoonup> metric_row"
  output_chunks :: "chunk_row list"
  output_chunks_seq :: nat

text \<open>The database after \<open>New\<close> on a fresh file: the migrations create empty tables.\<close>

definition New :: Store where
  "New = \<lparr>sessions = Map.empty, alerts = Map.empty, metrics = Map.empty,
          output_chunks = [], output_chunks_seq = 0\<rparr>"

text \<open>
  The zero value of \<open>time.Time\<close> is January 1 of year 1, 00:00:00 UTC, which is
  62135596800 seconds before the Unix epoch.
\<close>

definition zero_Time :: int where
  "zero_Time = - 62135596800 * 1000000000"

text \<open>
  \<open>SaveSession\<close> binds \<open>rec.EndTime\<close> and \<open>rec.LastActivity\<close>, which are \<open>time.Time\<close>
  values and not pointers or \<open>sql.NullTime\<close>: the column receives a value, never
  \<open>NULL\<close>, also when the field of the record was never set and holds the zero time.
  On a conflict on \<open>id\<close> the listed columns are replaced and the others kept.
\<close>

definition SaveSession :: "SessionRecord \<Rightarrow> Store \<Rightarrow> Store" where
  "SaveSession rec db =
     db\<lparr>sessions := (sessions db)(sr_ID rec \<mapsto>
       (case sessions db (sr_ID rec) of
          None \<Rightarrow>
            \<lparr>c_agent_id = sr_AgentID rec, c_agent_type = sr_AgentType rec,
             c_agent_name = sr_AgentName rec, c_directory = sr_Directory rec,
             c_project_id = sr_ProjectID rec, c_status = sr_Status rec,
             c_start_time = sr_StartTime rec, c_end_time = Some (sr_EndTime rec),
             c_last_activity = Some (sr_LastActivity rec),
             c_tokens_in = sr_TokensIn rec, c_tokens_out = sr_TokensOut rec,
             c_estimated_cost = sr_EstimatedCost rec, c_tool_calls = sr_ToolCalls rec,
             c_error_count = sr_ErrorCount rec, c_output = Some (sr_Output rec),
             c_metadata = Some (sr_Metadata rec)\<rparr>
        | Some row \<Rightarrow>
            row\<lparr>c_status := sr_Status rec, c_end_time := Some (sr_EndTime rec),
                c_last_activity := Some (sr_LastActivity rec),
                c_tokens_in := sr_TokensIn rec, c_tokens_out := sr_TokensOut rec,
                c_estimated_cost := sr_EstimatedCost rec, c_tool_calls := sr_ToolCalls rec,
                c_error_count := sr_ErrorCount rec, c_output := Some (sr_Output rec),
                c_metadata := Some (sr_Metadata rec)\<rparr>))\<rparr>"

text \<open>\<open>GetSession\<close>: a \<open>NULL\<close> leaves the field of the fresh record at its zero value.\<close>

definition GetSession :: "string \<Rightarrow> Store \<Rightarrow> error + SessionRecord" where
  "GetSession id' db =
     (case sessions db id' of
        None \<Rightarrow> Inl (Error ''sql: no rows in result set'')
      | Some row \<Rightarrow>
          Inr \<lparr>sr_ID = id', sr_AgentID = c_agent_id row, sr_AgentType = c_agent_type row,
               sr_AgentName = c_agent_name row, sr_Directory = c_directory row,
               sr_ProjectID = c_project_id row, sr_Status = c_status row,
               sr_StartTime = c_start_time row,
               sr_EndTime = (case c_end_time row of Some t \<Rightarrow> t | None \<Rightarrow> zero_Time),
               sr_LastActivity = (case c_last_activity row of Some t \<Rightarrow> t | None \<Rightarrow> zero_Time),
               sr_TokensIn = c_tokens_in row, sr_TokensOut = c_tokens_out row,
               sr_EstimatedCost = c_estimated_cost row, sr_ToolCalls = c_tool_calls row,
               sr_ErrorCount = c_error_count row,
               sr_Output = (case c_output row of Some t \<Rightarrow> t | None \<Rightarrow> []),
               sr_Metadata = (case c_metadata row of Some t \<Rightarrow> t | None \<Rightarrow> [])\<rparr>)"

text \<open>
  \<open>AppendOutput\<close> inserts a row whose id is one more than the counter. The foreign key
  on \<open>session_id\<close> is declared but not enforced (the connection does not switch
  \<open>foreign_keys\<close> on), so any session id is accepted.
\<close>

definition AppendOutput :: "int \<Rightarrow> string \<Rightarrow> string \<Rightarrow> Store \<Rightarrow> Store" where
  "AppendOutput now sessionID chunk' db =
     db\<lparr>output_chunks := output_chunks db @
           [\<lparr>chunk_id = Suc (output_chunks_seq db), chunk_session_id = sessionID,
             chunk = chunk', chunk_timestamp = now\<rparr>],
        output_chunks_seq := Suc (output_chunks_seq db)\<rparr>"

text \<open>\<open>GetOutput\<close>: the rows of the session ordered by id, their chunks appended one by one.\<close>

definition GetOutput :: "string \<Rightarrow> Store \<Rightarrow> string" where
  "GetOutput sessionID db =
     foldl (\<lambda>out chunk'. out @ chunk') []
       (map chunk (sort_key chunk_id
          (filter (\<lambda>r. chunk_session_id r = sessionID) (output_chunks db))))"

text \<open>
  \<open>Cleanup\<close>. The cutoff is \<open>maxAgeDays\<close> days before now (days of 24 hours). A session
  is deleted when \<open>end_time < cutoff AND c_end_time IS NOT NULL\<close>; its chunks are deleted
  first, then alerts and metrics older than the cutoff.
\<close>

definition Day :: int where
  "Day = 24 * 60 * Minute"

definition expired :: "int \<Rightarrow> session_row \<Rightarrow> bool" where
  "expired cutoff row = (case c_end_time row of None \<Rightarrow> False | Some t \<Rightarrow> t < cutoff)"

definition Cleanup :: "int \<Rightarrow> int \<Rightarrow> Store \<Rightarrow> Store" where
  "Cleanup maxAgeDays now db =
     (let cutoff = now - maxAgeDays * Day
      in db\<lparr>output_chunks :=
               filter (\<lambda>r. case sessions db (chunk_session_id r) of
                              None \<Rightarrow> True
                            | Some row \<Rightarrow> \<not> expired cutoff row)
                 (output_chunks db),
            sessions :=
              (\<lambda>id'. case sessions db id' of
                        None \<Rightarrow> None
                      | Some row \<Rightarrow> if expired cutoff row then None else Some row),
            alerts :=
              (\<lambda>id'. case alerts db id' of
                        None \<Rightarrow> None
                      | Some row \<Rightarrow> if alert_timestamp row < cutoff then None else Some row),
            metrics :=
              (\<lambda>id'. case metrics db id' of
                        None \<Rightarrow> None
                      | Some row \<Rightarrow> if metric_timestamp row < cutoff then None else Some row)\<rparr>)"

text \<open>
  The projection that \<open>Manager.Start\<close> and \<open>Manager.handleEvent\<close> save for a live agent:
  eleven fields are set, \<open>EndTime\<close> and the others keep their zero values.
\<close>

definition live_projection ::
  "string \<Rightarrow> string \<Rightarrow> string \<Rightarrow> string \<Rightarrow> string \<Rightarrow> Status \<Rightarrow> int \<Rightarrow> int \<Rightarrow> int \<Rightarrow> int \<Rightarrow>
     SessionRecord" where
  "live_projection id' type' name dir project st start activity tin tout =
     \<lparr>sr_ID = id', sr_AgentID = id', sr_AgentType = type', sr_AgentName = name,
      sr_Directory = dir, sr_ProjectID = project, sr_Status = Status_String st,
      sr_StartTime = start, sr_EndTime = zero_Time, sr_LastActivity = activity,
      sr_TokensIn = tin, sr_TokensOut = tout, sr_EstimatedCost = 0,
      sr_ToolCalls = 0, sr_ErrorCount = 0, sr_Output = [], sr_Metadata = []\<rparr>"

subsection \<open>Notions used to state the properties\<close>





text \<open>
  The session documents that \<open>Discover\<close> reads, in the order of its two loops, and the
  age test it applies to each.
\<close>

definition sessions_of_project :: "Storage \<Rightarrow> string \<Rightarrow> (bool \<times> string) list \<Rightarrow> SessionData list" where
  "sessions_of_project fs projectPath files =
     List.map_filter
       (\<lambda>(isDir, name).
          if isDir \<or> \<not> HasSuffix name ''.json'' then None
          else (case read_session fs (Join projectPath name) of
                  Inl err \<Rightarrow> None
                | Inr session \<Rightarrow> Some session))
       files"

definition sessions_of_tree :: "Storage \<Rightarrow> string \<Rightarrow> (bool \<times> string) list \<Rightarrow> SessionData list" where
  "sessions_of_tree fs sessionBasePath dirs =
     concat (map (\<lambda>(isDir, name).
                    if \<not> isDir then []
                    else sessions_of_project fs (Join sessionBasePath name)
                           (entries_or_nil (ReadDir fs (Join sessionBasePath name))))
                 dirs)"

definition discoverable :: "Storage \<Rightarrow> string \<Rightarrow> SessionData list" where
  "discoverable fs storagePath =
     sessions_of_tree fs (Join storagePath ''session'')
       (entries_or_nil (ReadDir fs (Join storagePath ''session'')))"

definition too_old :: "int \<Rightarrow> int \<Rightarrow> SessionData \<Rightarrow> bool" where
  "too_old now maxAge session \<longleftrightarrow>
     maxAge > 0 \<and> Since now (UnixMilli (sd_Updated session)) > maxAge"

text \<open>The id of the agent object behind a pointer.\<close>

definition id_at :: "Heap \<Rightarrow> nat \<Rightarrow> string option" where
  "id_at h p = map_option oc_id (cells h p)"

text \<open>A run of \<open>AppendOutput\<close> calls, each with its time, session id and chunk.\<close>

fun AppendOutputs :: "(int \<times> string \<times> string) list \<Rightarrow> Store \<Rightarrow> Store" where
  "AppendOutputs [] db = db"
| "AppendOutputs ((now, sessionID, chunk') # calls) db =
     AppendOutputs calls (AppendOutput now sessionID chunk' db)"

text \<open>
  The bookkeeping of the loops of \<open>Discover\<close>: between a state of the loop and a later
  one the heap only grows, the cells that existed are unchanged, the pointers appended
  are new and carry the ids of the sessions \<open>ss\<close> that pass the age test, and every new
  index entry is a new pointer.
\<close>

definition ids_of :: "Heap \<Rightarrow> nat list \<Rightarrow> string option list" where
  "ids_of h ps = map (id_at h) ps"

definition loop_inv ::
  "int \<Rightarrow> int \<Rightarrow> SessionData list \<Rightarrow>
   (string \<rightharpoonup> nat) \<times> nat list \<times> Heap \<Rightarrow> (string \<rightharpoonup> nat) \<times> nat list \<times> Heap \<Rightarrow> bool" where
  "loop_inv now maxAge ss st st' \<longleftrightarrow>
     (case st of (index, found, h) \<Rightarrow> case st' of (index', found', h') \<Rightarrow>
        next_addr h \<le> next_addr h'
      \<and> (\<forall>p < next_addr h. cells h' p = cells h p)
      \<and> (\<exists>new. found' = found @ new \<and> (\<forall>p \<in> set new. next_addr h \<le> p \<and> p < next_addr h')
             \<and> ids_of h' new = map (\<lambda>s. Some (sd_ID s)) (filter (\<lambda>s. \<not> too_old now maxAge s) ss))
      \<and> (\<forall>k p. index' k = Some p \<longrightarrow> index k = Some p \<or> (next_addr h \<le> p \<and> p < next_addr h')))"


text \<open>
  The row ids of \<open>output_chunks\<close> never exceed the counter: this holds after \<open>New\<close> and is
  kept by every method of the store.
\<close>

definition chunk_ids_bounded :: "Store \<Rightarrow> bool" where
  "chunk_ids_bounded db \<longleftrightarrow> (\<forall>r \<in> set (output_chunks db). chunk_id r \<le> output_chunks_seq db)"

subsection \<open>Concrete inputs\<close>

text \<open>
  A manager over three mock agents (at the addresses 11, 12 and 13), two of them in
  the live map and two of them
  (\<open>agent-1\<close>, \<open>agent-3\<close>) known to the mock provider.
\<close>

definition mock_world :: MockWorld where
  "mock_world =
     \<lparr>mock_cells = (\<lambda>_. NewMockAgent [] [])
        (11 := NewMockAgent ''agent-1'' ''Agent 1'',
         12 := NewMockAgent ''agent-2'' ''Agent 2'',
         13 := NewMockAgent ''agent-3'' ''Agent 3''),
      MockAgents = [11, 13], mock_next = 14\<rparr>"

definition mock_manager :: "MockWorld Manager" where
  "mock_manager =
     \<lparr>registry = \<lparr>providers = [''mock'' \<mapsto> MockProvider_iface]\<rparr>,
      agents = [''agent-1'' \<mapsto> MockAgent_iface 11, ''agent-2'' \<mapsto> MockAgent_iface 12]\<rparr>"

text \<open>
  A storage tree with one session \<open>ses_A\<close>, updated two minutes before \<open>demo_now\<close>, with
  one message and two parts under it: the first in state \<open>error\<close>, the second in state
  \<open>running\<close>.
\<close>

definition demo_now_ms :: int where
  "demo_now_ms = 1793404800000"

definition demo_now :: int where
  "demo_now = UnixMilli demo_now_ms"

definition demo_session :: SessionData where
  "demo_session =
     \<lparr>sd_ID = ''ses_A'', sd_ProjectID = ''global'', sd_Directory = ''/project'',
      sd_ParentID = [], sd_Title = ''Fix bug'',
      sd_Created = demo_now_ms - 600000, sd_Updated = demo_now_ms - 120000\<rparr>"

definition demo_message :: MessageData where
  "demo_message =
     \<lparr>md_ID = ''msg-1'', md_SessionID = ''ses_A'', md_Role = ''user'',
      md_Created = demo_now_ms - 120000, md_Title = ''Fix bug''\<rparr>"

definition demo_part_error :: PartData where
  "demo_part_error =
     \<lparr>pd_ID = ''part-1'', pd_MessageID = ''msg-1'', pd_Type = ''tool-invocation'',
      pd_Created = demo_now_ms - 120000, pd_Text = [], pd_State = ''error''\<rparr>"

definition demo_part_running :: PartData where
  "demo_part_running =
     \<lparr>pd_ID = ''part-2'', pd_MessageID = ''msg-1'', pd_Type = ''tool-invocation'',
      pd_Created = demo_now_ms - 60000, pd_Text = [], pd_State = ''running''\<rparr>"

definition demo_storage :: Storage where
  "demo_storage =
     \<lparr>ReadDir = (\<lambda>path.
        if path = ''/s/session'' then Entries [(True, ''global''), (False, ''readme.txt'')]
        else if path = ''/s/session/global'' then Entries [(False, ''ses_A.json''), (True, ''tmp'')]
        else if path = ''/s/message/ses_A'' then Entries [(False, ''msg-1.json'')]
        else if path = ''/s/part/msg-1''
          then Entries [(False, ''part-1.json''), (False, ''part-2.json'')]
        else NotExist),
      read_session = (\<lambda>path.
        if path = ''/s/session/global/ses_A.json'' then Inr demo_session
        else Inl (Error ''no such file'')),
      read_message = (\<lambda>path.
        if path = ''/s/message/ses_A/msg-1.json'' then Some demo_message else None),
      read_part = (\<lambda>path.
        if path = ''/s/part/msg-1/part-1.json'' then Some demo_part_error
        else if path = ''/s/part/msg-1/part-2.json'' then Some demo_part_running
        else None)\<rparr>"

text \<open>The agent of \<open>ses_A\<close> with its message loaded, and the same agent after its
  session file has gone.\<close>

definition demo_agent :: OpenCodeAgent where
  "demo_agent =
     \<lparr>oc_id = ''ses_A'', oc_name = ''Fix bug'', oc_directory = ''/project'',
      oc_projectID = ''global'', oc_parentID = [], oc_storagePath = ''/s'',
      oc_sessionFile = ''/s/session/global/ses_A.json'', oc_status = StatusIdle,
      oc_startTime = UnixMilli (demo_now_ms - 600000),
      oc_lastActivity = UnixMilli (demo_now_ms - 120000),
      oc_messages = [demo_message], oc_loaded = True\<rparr>"

definition demo_orphan :: OpenCodeAgent where
  "demo_orphan = demo_agent\<lparr>oc_sessionFile := ''/s/session/global/gone.json''\<rparr>"

definition demo_cli_agent :: CLIAgent where
  "demo_cli_agent =
     \<lparr>cli_id = ''ses_A'', cli_name = ''Fix bug'', cli_directory = ''/project'',
      cli_projectID = ''global'', cli_parentID = [], cli_status = StatusIdle,
      cli_startTime = UnixMilli (demo_now_ms - 600000),
      cli_lastActivity = UnixMilli (demo_now_ms - 120000)\<rparr>"

definition demo_cli_session :: CLISession where
  "demo_cli_session =
     \<lparr>cs_ID = ''ses_A'', cs_Title = ''Fix bug'', cs_Updated = demo_now_ms - 10000,
      cs_Created = demo_now_ms - 600000, cs_ProjectID = ''global'', cs_Directory = ''/project''\<rparr>"

text \<open>A provider on that tree with a maximal age of one day, an empty heap, and two
  calls of \<open>Discover\<close> five seconds apart.\<close>

definition demo_provider :: FileProvider where
  "demo_provider = \<lparr>fp_storagePath = ''/s'', fp_maxAge = Day, fp_agents = Map.empty\<rparr>"

definition demo_heap :: Heap where
  "demo_heap = \<lparr>cells = Map.empty, next_addr = 0\<rparr>"

definition demo_first :: "(error + nat list) \<times> FileProvider \<times> Heap" where
  "demo_first = Provider_Discover demo_now demo_storage demo_provider demo_heap"

definition demo_second :: "(error + nat list) \<times> FileProvider \<times> Heap" where
  "demo_second =
     Provider_Discover (demo_now + 5 * Second) demo_storage
       (fst (snd demo_first)) (snd (snd demo_first))"

text \<open>A CLI provider with an empty index and an empty heap.\<close>

definition demo_cli_provider :: CLIProvider where
  "demo_cli_provider = \<lparr>cp_maxAge = Day, cp_maxSessions = 100, cp_agents = Map.empty\<rparr>"

definition demo_cli_heap :: CLIHeap where
  "demo_cli_heap = \<lparr>cli_cells = Map.empty, cli_next = 0\<rparr>"

definition demo_cli_first :: "(error + nat list) \<times> CLIProvider \<times> CLIHeap" where
  "demo_cli_first =
     CLI_Provider_Discover demo_now (Inr [demo_cli_session]) demo_cli_provider demo_cli_heap"

definition demo_cli_second :: "(error + nat list) \<times> CLIProvider \<times> CLIHeap" where
  "demo_cli_second =
     CLI_Provider_Discover (demo_now + 5 * Second) (Inr [demo_cli_session])
       (fst (snd demo_cli_first)) (snd (snd demo_cli_first))"

text \<open>The projection of the running agent \<open>ses_A\<close> as the manager saves it.\<close>

definition demo_projection :: SessionRecord where
  "demo_projection =
     live_projection ''ses_A'' ''opencode'' ''Fix bug'' ''/project'' ''global'' StatusRunning
       1793404200000000000 1793404790000000000 0 0"

text \<open>A run of the fan-in with one provider: an event goes through, the context is
  cancelled, the provider closes its channel, the forwarder returns.\<close>

definition demo_run :: "string action list" where
  "demo_run = [ProviderSend 0 ''updated'', ForwarderReceive 0, ForwarderSend 0, Consume,
               Cancel, ProviderClose 0, ForwarderReceive 0]"

definition demo_drained :: "string FanIn" where
  "demo_drained =
     \<lparr>upstream = [\<lparr>buf = [], closed = True\<rparr>], forwarders = [Returned],
      merged = \<lparr>buf = [], closed = False\<rparr>, ctx_done = True\<rparr>"

section \<open>Properties\<close>

subsection \<open>The session manager\<close>

lemma ID_MockAgent_iface: "ID (MockAgent_iface p) w = MockID (mock_cells w p)"
  by (simp add: MockAgent_iface_def)

lemma Terminate_MockAgent_iface:
  "Terminate (MockAgent_iface p) w =
     (None, w\<lparr>mock_cells := (mock_cells w)
                (p := (mock_cells w p)\<lparr>TerminateCalled := True, MockStatus := StatusCancelled\<rparr>)\<rparr>)"
  by (simp add: MockAgent_iface_def)

lemma SendInput_MockAgent_iface:
  "SendInput (MockAgent_iface p) input w =
     (None, w\<lparr>mock_cells := (mock_cells w)
                (p := (mock_cells w p)\<lparr>SendInputCalled := True, LastInput := input\<rparr>)\<rparr>)"
  by (simp add: MockAgent_iface_def)

lemma Registry_List_empty: "Registry_List \<lparr>providers = Map.empty\<rparr> pks = []"
  by (simp add: Registry_List_def List.map_filter_def)

text \<open>
  When the type of the configuration is not registered and at least one provider is,
  \<open>Spawn\<close> goes to the provider that \<open>Registry.List\<close> puts first.
\<close>

lemma Manager_Spawn_fallback:
  assumes "Registry_Get (registry m) (cfg_Type config) = None"
      and "Registry_List (registry m) pks = p # ps"
  shows "Manager_Spawn m pks config w =
           Inr (case Spawn p config w of
                  (Inl err, w') \<Rightarrow> (Inl err, m, w')
                | (Inr a, w') \<Rightarrow> (Inr a, m\<lparr>agents := (agents m)(ID a w' \<mapsto> a)\<rparr>, w'))"
  using assms by (simp add: Manager_Spawn_def split: prod.splits sum.splits)

text \<open>
  Claim C3, second half, on the code: with no provider registered, \<open>Manager.Spawn\<close>
  does not return an error. For every live map, every configuration and every state
  it indexes the empty slice \<open>m.registry.List()\<close> at 0 and panics.
\<close>

theorem Manager_Spawn_no_providers_panics:
  "Manager_Spawn \<lparr>registry = \<lparr>providers = Map.empty\<rparr>, agents = live\<rparr> pks config w
     = Inl (IndexOutOfRange 0 0)"
  by (simp add: Manager_Spawn_def Registry_Get_def Registry_List_empty)

lemma map_add_rev_Cons:
  "mp(k \<mapsto> v) ++ map_of (rev xs) = mp ++ map_of (rev ((k, v) # xs))"
proof
  fix x
  show "(mp(k \<mapsto> v) ++ map_of (rev xs)) x = (mp ++ map_of (rev ((k, v) # xs))) x"
    by (cases "map_of (rev xs) x") (simp_all add: map_add_def)
qed

lemma Refresh_store_eq:
  "Refresh_store w S (mp, seen) =
     (mp ++ map_of (rev (map (\<lambda>a. (ID a w, a)) S)),
      (\<lambda>k. seen k \<or> k \<in> (\<lambda>a. ID a w) ` set S))"
proof (induction S arbitrary: mp seen)
  case Nil
  show ?case by simp
next
  case (Cons a S)
  have s: "(\<lambda>k. (seen(ID a w := True)) k \<or> k \<in> (\<lambda>a. ID a w) ` set S)
        = (\<lambda>k. seen k \<or> k \<in> (\<lambda>a. ID a w) ` set (a # S))"
    by (rule ext) simp
  have "Refresh_store w (a # S) (mp, seen)
      = Refresh_store w S (mp(ID a w \<mapsto> a), seen(ID a w := True))" by simp
  also have "\<dots> = (mp(ID a w \<mapsto> a) ++ map_of (rev (map (\<lambda>a. (ID a w, a)) S)),
      (\<lambda>k. (seen(ID a w := True)) k \<or> k \<in> (\<lambda>a. ID a w) ` set S))"
    by (rule Cons.IH)
  also have "\<dots> = (mp ++ map_of (rev (map (\<lambda>a. (ID a w, a)) (a # S))),
      (\<lambda>k. seen k \<or> k \<in> (\<lambda>a. ID a w) ` set (a # S)))"
    unfolding s by (simp only: map_add_rev_Cons list.map)
  finally show ?case .
qed

lemma Refresh_evict_eq:
  "Refresh_evict seen ks mp = (\<lambda>k. if k \<in> set ks \<and> \<not> seen k then None else mp k)"
  by (induction ks arbitrary: mp) (auto simp: fun_eq_iff)

lemma dom_map_of_ids: "dom (map_of (rev (map (\<lambda>a. (f a, a)) S))) = f ` set S"
  by (force simp: dom_map_of_conv_image_fst)

lemma map_of_rev_distinct:
  assumes d: "distinct (map f S)" and a: "a \<in> set S"
  shows "map_of (rev (map (\<lambda>a. (f a, a)) S)) (f a) = Some a"
proof -
  have "map fst (rev (map (\<lambda>a. (f a, a)) S)) = rev (map f S)"
    by (simp add: rev_map comp_def)
  with d have "distinct (map fst (rev (map (\<lambda>a. (f a, a)) S)))" by simp
  moreover have "(f a, a) \<in> set (rev (map (\<lambda>a. (f a, a)) S))" using a by auto
  ultimately show ?thesis by (rule map_of_is_SomeI)
qed

lemma Refresh_evict_after_store:
  assumes ks: "set ks = dom mp \<union> f ` set S"
  shows "Refresh_evict (\<lambda>k. False \<or> k \<in> f ` set S) ks (mp ++ map_of (rev (map (\<lambda>a. (f a, a)) S)))
       = map_of (rev (map (\<lambda>a. (f a, a)) S))"
proof
  fix k
  let ?new = "map_of (rev (map (\<lambda>a. (f a, a)) S))"
  have d: "dom ?new = f ` set S" by (rule dom_map_of_ids)
  show "Refresh_evict (\<lambda>k. False \<or> k \<in> f ` set S) ks (mp ++ ?new) k = ?new k"
  proof (cases "k \<in> f ` set S")
    case True
    then obtain v where "?new k = Some v" using d by blast
    then show ?thesis using True by (simp add: Refresh_evict_eq map_add_def)
  next
    case False
    then have n: "?new k = None" using d by blast
    show ?thesis
    proof (cases "k \<in> set ks")
      case True
      then show ?thesis using False n by (simp add: Refresh_evict_eq)
    next
      case nk: False
      then have "mp k = None" using ks by blast
      then show ?thesis using n nk by (simp add: Refresh_evict_eq map_add_def)
    qed
  qed
qed

text \<open>
  Claim C6. Let discovery return the list \<open>S\<close> of agents, and let the second loop of
  \<open>Manager.Refresh\<close> visit the keys that the live map has after the first loop (the
  previous keys and the ids of \<open>S\<close>). Then \<open>Refresh\<close> returns no error and the live
  map is exactly the map of \<open>S\<close>: under every id the agent returned last with that id,
  and nothing else. Its keys are the ids of \<open>S\<close>, so an id that was in the live map and
  is not in \<open>S\<close> is absent; when the ids of \<open>S\<close> are distinct every agent of \<open>S\<close> is
  the entry under its id.
\<close>

theorem Manager_Refresh_exact:
  assumes disc: "Registry_DiscoverAll (registry m) pks w = (S, w')"
      and ks: "set ks = dom (agents m) \<union> (\<lambda>a. ID a w') ` set S"
  shows "Manager_Refresh m pks ks w =
           (None, m\<lparr>agents := map_of (rev (map (\<lambda>a. (ID a w', a)) S))\<rparr>, w')
       \<and> dom (map_of (rev (map (\<lambda>a. (ID a w', a)) S))) = (\<lambda>a. ID a w') ` set S
       \<and> (distinct (map (\<lambda>a. ID a w') S) \<longrightarrow>
            (\<forall>a \<in> set S. map_of (rev (map (\<lambda>a. (ID a w', a)) S)) (ID a w') = Some a))"
proof -
  let ?new = "map_of (rev (map (\<lambda>a. (ID a w', a)) S))"
  have d: "dom ?new = (\<lambda>a. ID a w') ` set S" by (rule dom_map_of_ids)
  have "Manager_Refresh m pks ks w = (None, m\<lparr>agents := ?new\<rparr>, w')"
    by (simp only: Manager_Refresh_def disc Refresh_store_eq prod.case
          Refresh_evict_after_store [OF ks])
  moreover have "distinct (map (\<lambda>a. ID a w') S) \<longrightarrow> (\<forall>a \<in> set S. ?new (ID a w') = Some a)"
    using map_of_rev_distinct [of "\<lambda>a. ID a w'" S] by blast
  ultimately show ?thesis using d by blast
qed

text \<open>
  Witness for C6: the live map holds \<open>agent-1\<close> and \<open>agent-2\<close>, discovery returns
  \<open>agent-1\<close> and \<open>agent-3\<close>; after the refresh \<open>agent-2\<close> is gone and the other two are
  the entries under their ids.
\<close>

theorem Manager_Refresh_exact_witness:
  "Registry_DiscoverAll (registry mock_manager) [''mock''] mock_world
     = ([MockAgent_iface 11, MockAgent_iface 13], mock_world)
   \<and> set [''agent-2'', ''agent-3'', ''agent-1'']
       = dom (agents mock_manager) \<union> (\<lambda>a. ID a mock_world) ` set [MockAgent_iface 11, MockAgent_iface 13]
   \<and> fst (Manager_Refresh mock_manager [''mock''] [''agent-2'', ''agent-3'', ''agent-1''] mock_world)
       = None
   \<and> agents (fst (snd (Manager_Refresh mock_manager [''mock'']
                          [''agent-2'', ''agent-3'', ''agent-1''] mock_world))) ''agent-2'' = None
   \<and> agents (fst (snd (Manager_Refresh mock_manager [''mock'']
                          [''agent-2'', ''agent-3'', ''agent-1''] mock_world))) ''agent-1''
       = Some (MockAgent_iface 11)
   \<and> agents (fst (snd (Manager_Refresh mock_manager [''mock'']
                          [''agent-2'', ''agent-3'', ''agent-1''] mock_world))) ''agent-3''
       = Some (MockAgent_iface 13)"
proof -
  have disc: "Registry_DiscoverAll (registry mock_manager) [''mock''] mock_world
     = ([MockAgent_iface 11, MockAgent_iface 13], mock_world)"
    by (simp add: Registry_DiscoverAll_def Registry_List_def List.map_filter_def mock_manager_def
          MockProvider_iface_def mock_world_def)
  have id1: "ID (MockAgent_iface 11) mock_world = ''agent-1''"
    by (simp add: ID_MockAgent_iface mock_world_def NewMockAgent_def)
  have id3: "ID (MockAgent_iface 13) mock_world = ''agent-3''"
    by (simp add: ID_MockAgent_iface mock_world_def NewMockAgent_def)
  have ks: "set [''agent-2'', ''agent-3'', ''agent-1'']
       = dom (agents mock_manager) \<union> (\<lambda>a. ID a mock_world) ` set [MockAgent_iface 11, MockAgent_iface 13]"
    by (auto simp: id1 id3 mock_manager_def)
  show ?thesis
    using disc ks Manager_Refresh_exact [OF disc ks]
    by (simp add: id1 id3)
qed

text \<open>
  Claim C9. For an id that is not in the live map, \<open>Manager.Terminate\<close> and
  \<open>Manager.SendInput\<close> return \<open>nil\<close> and change neither the manager nor any agent; for
  an id that is in the live map they return what the agent's own \<open>Terminate\<close> or
  \<open>SendInput\<close> returns, with the effect of that method, and the manager is unchanged.
\<close>

theorem Manager_control_unknown_id:
  "(agents m i = None \<longrightarrow>
      Manager_Terminate m i w = (None, m, w) \<and> Manager_SendInput m i txt w = (None, m, w))
   \<and> (\<forall>a. agents m i = Some a \<longrightarrow>
      Manager_Terminate m i w = (fst (Terminate a w), m, snd (Terminate a w)) \<and>
      Manager_SendInput m i txt w = (fst (SendInput a txt w), m, snd (SendInput a txt w)))"
  by (simp add: Manager_Terminate_def Manager_SendInput_def split: prod.splits)

text \<open>
  Witness for C9: \<open>non-existent\<close> is not in the live map of the mock manager and both
  calls are no-ops; \<open>agent-1\<close> is, and the mock agent records the calls.
\<close>

theorem Manager_control_unknown_id_witness:
  "agents mock_manager ''non-existent'' = None
   \<and> Manager_Terminate mock_manager ''non-existent'' mock_world = (None, mock_manager, mock_world)
   \<and> Manager_SendInput mock_manager ''non-existent'' ''test'' mock_world
       = (None, mock_manager, mock_world)
   \<and> agents mock_manager ''agent-1'' = Some (MockAgent_iface 11)
   \<and> fst (Manager_Terminate mock_manager ''agent-1'' mock_world) = None
   \<and> MockStatus (mock_cells (snd (snd (Manager_Terminate mock_manager ''agent-1'' mock_world))) 11)
       = StatusCancelled
   \<and> TerminateCalled (mock_cells (snd (snd (Manager_Terminate mock_manager ''agent-1'' mock_world))) 11)
   \<and> LastInput (mock_cells (snd (snd (Manager_SendInput mock_manager ''agent-1'' ''test input''
                                         mock_world))) 11)
       = ''test input''"
proof -
  have n: "agents mock_manager ''non-existent'' = None"
    by (simp add: mock_manager_def)
  have s: "agents mock_manager ''agent-1'' = Some (MockAgent_iface 11)"
    by (simp add: mock_manager_def)
  show ?thesis
    using n s
      Manager_control_unknown_id [of mock_manager "''non-existent''" mock_world "''test''"]
      Manager_control_unknown_id [of mock_manager "''agent-1''" mock_world "''test input''"]
    by (simp add: Terminate_MockAgent_iface SendInput_MockAgent_iface)
qed

lemma containsIgnoreCase_empty: "containsIgnoreCase s [] = True"
  by (auto simp: containsIgnoreCase_def equalFold_def list_ex_iff Let_def)

text \<open>
  Claim C10. \<open>containsIgnoreCase\<close> finds the empty string in every string, so
  \<open>Manager.Search\<close> with the empty query filters nothing out: whatever the order \<open>ks\<close> in
  which the live map is enumerated, the result is the agents under the keys of \<open>ks\<close>,
  in that order; when \<open>ks\<close> enumerates the keys of the live map these are all its agents.
\<close>

theorem Search_empty_query_returns_all:
  assumes "set ks = dom (agents m)"
  shows "Manager_Search m ks [] w = List.map_filter (agents m) ks
       \<and> set (Manager_Search m ks [] w) = ran (agents m)"
proof -
  have 1: "Manager_Search m ks [] w = List.map_filter (agents m) ks"
    by (simp add: Manager_Search_def containsIgnoreCase_empty)
  have "set (List.map_filter (agents m) ks) = ran (agents m)"
    using assms by (force simp: List.map_filter_def ran_def dom_def)
  with 1 show ?thesis by simp
qed

text \<open>Witness for C10: the empty query on the mock manager returns both agents.\<close>

theorem Search_empty_query_returns_all_witness:
  "set [''agent-2'', ''agent-1''] = dom (agents mock_manager)
   \<and> Manager_Search mock_manager [''agent-2'', ''agent-1''] [] mock_world
       = [MockAgent_iface 12, MockAgent_iface 11]"
proof -
  have h: "set [''agent-2'', ''agent-1''] = dom (agents mock_manager)"
    by (auto simp: mock_manager_def)
  show ?thesis
    using h Search_empty_query_returns_all [OF h, of mock_world]
    by (simp add: mock_manager_def List.map_filter_def)
qed


subsection \<open>The status of the file-watch and of the CLI agent\<close>




lemma window_status_not_cancelled:
  "window_status d \<in> {StatusRunning, StatusIdle, StatusCompleted}"
  by (simp add: window_status_def)

lemma determineStatus_status:
  "oc_status (determineStatus now fs a)
     \<in> {StatusPending, StatusRunning, StatusIdle, StatusCompleted, StatusErrored}"
proof (cases "oc_messages a = []")
  case True
  then show ?thesis by (simp add: determineStatus_def)
next
  case False
  then show ?thesis
    using window_status_not_cancelled [of "Since now (UnixMilli (md_Created (last (oc_messages a))))"]
    by (auto simp: determineStatus_def Let_def split: option.splits scan_result.splits)
qed

text \<open>
  Claim C1 as stated fails on the code: the agent of \<open>ses_A\<close> is terminated and then
  refreshed; the refresh re-derives the status from the parts on disk and the agent is
  \<open>errored\<close>, no longer \<open>cancelled\<close>.
\<close>

theorem cancelled_overwritten_by_Refresh:
  "oc_status (snd (OpenCodeAgent_Terminate demo_agent)) = StatusCancelled
   \<and> fst (Refresh demo_now demo_storage (snd (OpenCodeAgent_Terminate demo_agent))) = None
   \<and> oc_status (snd (Refresh demo_now demo_storage (snd (OpenCodeAgent_Terminate demo_agent))))
       = StatusErrored"
  by code_simp

text \<open>
  Claim C1 as amended. \<open>Terminate\<close> sets the status of the file-watch agent and of the
  CLI agent to \<open>cancelled\<close>. The status is not latched: a \<open>Refresh\<close> of the file-watch
  agent that fails (the session file or the message directory cannot be read) leaves
  the status as it was, a \<open>Refresh\<close> that succeeds ends in \<open>determineStatus\<close> and leaves
  one of pending, running, idle, completed, errored, and \<open>Update\<close> of the CLI agent
  leaves one of running, idle, completed: after either the status is not \<open>cancelled\<close>,
  whatever it was before.
\<close>

theorem cancelled_until_rederived:
  "oc_status (snd (OpenCodeAgent_Terminate a)) = StatusCancelled
   \<and> cli_status (snd (CLI_Terminate c)) = StatusCancelled
   \<and> (fst (Refresh now fs a) \<noteq> None \<longrightarrow> oc_status (snd (Refresh now fs a)) = oc_status a)
   \<and> (fst (Refresh now fs a) = None \<longrightarrow>
        oc_status (snd (Refresh now fs a))
          \<in> {StatusPending, StatusRunning, StatusIdle, StatusCompleted, StatusErrored})
   \<and> cli_status (CLI_Update now session c) \<in> {StatusRunning, StatusIdle, StatusCompleted}"
proof -
  have 1: "oc_status (snd (OpenCodeAgent_Terminate a)) = StatusCancelled"
    by (simp add: OpenCodeAgent_Terminate_def)
  have 2: "cli_status (snd (CLI_Terminate c)) = StatusCancelled"
    by (simp add: CLI_Terminate_def)
  have 3: "fst (Refresh now fs a) \<noteq> None \<longrightarrow> oc_status (snd (Refresh now fs a)) = oc_status a"
    by (auto simp: Refresh_def Let_def split: sum.splits)
  have 4: "fst (Refresh now fs a) = None \<longrightarrow>
        oc_status (snd (Refresh now fs a))
          \<in> {StatusPending, StatusRunning, StatusIdle, StatusCompleted, StatusErrored}"
    using determineStatus_status
    by (auto simp: Refresh_def Let_def split: sum.splits)
  have 5: "cli_status (CLI_Update now session c) \<in> {StatusRunning, StatusIdle, StatusCompleted}"
    using window_status_not_cancelled by (simp add: CLI_Update_def CLI_determineStatus_def)
  from 1 2 3 4 5 show ?thesis by blast
qed

text \<open>
  Witness for the amended C1: the refresh of a terminated agent whose session file is
  gone fails and the agent stays \<open>cancelled\<close>; the refresh of the terminated agent of
  \<open>ses_A\<close> succeeds and the update of the terminated CLI agent is done: neither is
  \<open>cancelled\<close> any more.
\<close>

theorem cancelled_until_rederived_witness:
  "fst (Refresh demo_now demo_storage (snd (OpenCodeAgent_Terminate demo_orphan))) \<noteq> None
   \<and> oc_status (snd (Refresh demo_now demo_storage (snd (OpenCodeAgent_Terminate demo_orphan))))
       = StatusCancelled
   \<and> fst (Refresh demo_now demo_storage (snd (OpenCodeAgent_Terminate demo_agent))) = None
   \<and> oc_status (snd (Refresh demo_now demo_storage (snd (OpenCodeAgent_Terminate demo_agent))))
       \<noteq> StatusCancelled
   \<and> cli_status (CLI_Update demo_now demo_cli_session (snd (CLI_Terminate demo_cli_agent)))
       \<noteq> StatusCancelled"
proof -
  let ?orphan = "snd (OpenCodeAgent_Terminate demo_orphan)"
  let ?agent = "snd (OpenCodeAgent_Terminate demo_agent)"
  let ?cli = "snd (CLI_Terminate demo_cli_agent)"
  have f: "fst (Refresh demo_now demo_storage ?orphan) \<noteq> None"
    by (simp add: Refresh_def OpenCodeAgent_Terminate_def demo_orphan_def demo_storage_def)
  have s: "fst (Refresh demo_now demo_storage ?agent) = None"
    by code_simp
  have c: "oc_status ?orphan = StatusCancelled"
    using cancelled_until_rederived [of demo_orphan demo_cli_agent demo_now demo_storage
        demo_cli_session] by (rule conjunct1)
  note o = cancelled_until_rederived [of ?orphan ?cli demo_now demo_storage demo_cli_session]
  note a = cancelled_until_rederived [of ?agent ?cli demo_now demo_storage demo_cli_session]
  from o f c have 1: "oc_status (snd (Refresh demo_now demo_storage ?orphan)) = StatusCancelled"
    by metis
  from a s have "oc_status (snd (Refresh demo_now demo_storage ?agent))
          \<in> {StatusPending, StatusRunning, StatusIdle, StatusCompleted, StatusErrored}"
    by blast
  then have 2: "oc_status (snd (Refresh demo_now demo_storage ?agent)) \<noteq> StatusCancelled"
    by auto
  from a have "cli_status (CLI_Update demo_now demo_cli_session ?cli)
          \<in> {StatusRunning, StatusIdle, StatusCompleted}"
    by blast
  then have 3: "cli_status (CLI_Update demo_now demo_cli_session ?cli) \<noteq> StatusCancelled"
    by auto
  from f 1 s 2 3 show ?thesis by blast
qed




subsection \<open>Discovery by the file-watch provider\<close>

lemma NewOpenCodeAgent_fields:
  "NewOpenCodeAgent now fs sp path = Inr a \<Longrightarrow>
     \<exists>session. read_session fs path = Inr session \<and> oc_id a = sd_ID session
        \<and> oc_lastActivity a = UnixMilli (sd_Updated session)"
  by (auto simp: NewOpenCodeAgent_def determineStatusFast_def split: sum.splits)

lemma NewOpenCodeAgent_Inl:
  "NewOpenCodeAgent now fs sp path = Inl e \<Longrightarrow> \<exists>e'. read_session fs path = Inl e'"
  by (auto simp: NewOpenCodeAgent_def split: sum.splits)

lemma loop_inv_refl: "loop_inv now maxAge [] st st"
  by (cases st) (simp add: loop_inv_def ids_of_def)

lemma ids_of_append: "ids_of h (ps @ qs) = ids_of h ps @ ids_of h qs"
  by (simp add: ids_of_def)

lemma ids_of_cong:
  "\<forall>p \<in> set ps. cells h' p = cells h p \<Longrightarrow> ids_of h' ps = ids_of h ps"
  by (simp add: ids_of_def id_at_def)

lemma loop_inv_trans:
  assumes a: "loop_inv now maxAge ss1 st st1" and b: "loop_inv now maxAge ss2 st1 st2"
  shows "loop_inv now maxAge (ss1 @ ss2) st st2"
proof -
  obtain index found h where st: "st = (index, found, h)" by (cases st)
  obtain index1 found1 h1 where st1: "st1 = (index1, found1, h1)" by (cases st1)
  obtain index2 found2 h2 where st2: "st2 = (index2, found2, h2)" by (cases st2)
  from a obtain new1 where
    n1: "next_addr h \<le> next_addr h1"
    and c1: "\<forall>p < next_addr h. cells h1 p = cells h p"
    and f1: "found1 = found @ new1"
    and r1: "\<forall>p \<in> set new1. next_addr h \<le> p \<and> p < next_addr h1"
    and i1: "ids_of h1 new1 = map (\<lambda>s. Some (sd_ID s)) (filter (\<lambda>s. \<not> too_old now maxAge s) ss1)"
    and x1: "\<forall>k p. index1 k = Some p \<longrightarrow> index k = Some p \<or> (next_addr h \<le> p \<and> p < next_addr h1)"
    by (auto simp: loop_inv_def st st1)
  from b obtain new2 where
    n2: "next_addr h1 \<le> next_addr h2"
    and c2: "\<forall>p < next_addr h1. cells h2 p = cells h1 p"
    and f2: "found2 = found1 @ new2"
    and r2: "\<forall>p \<in> set new2. next_addr h1 \<le> p \<and> p < next_addr h2"
    and i2: "ids_of h2 new2 = map (\<lambda>s. Some (sd_ID s)) (filter (\<lambda>s. \<not> too_old now maxAge s) ss2)"
    and x2: "\<forall>k p. index2 k = Some p \<longrightarrow> index1 k = Some p \<or> (next_addr h1 \<le> p \<and> p < next_addr h2)"
    by (auto simp: loop_inv_def st1 st2)
  have "ids_of h2 new1 = ids_of h1 new1"
    using r1 c2 by (intro ids_of_cong) auto
  then have ids: "ids_of h2 (new1 @ new2)
     = map (\<lambda>s. Some (sd_ID s)) (filter (\<lambda>s. \<not> too_old now maxAge s) (ss1 @ ss2))"
    using i1 i2 by (simp add: ids_of_append)
  have rng: "\<forall>p \<in> set (new1 @ new2). next_addr h \<le> p \<and> p < next_addr h2"
    using r1 r2 n1 n2 by fastforce
  have cells: "\<forall>p < next_addr h. cells h2 p = cells h p"
    using c1 c2 n1 by auto
  have idx: "\<forall>k p. index2 k = Some p \<longrightarrow> index k = Some p \<or> (next_addr h \<le> p \<and> p < next_addr h2)"
  proof (intro allI impI)
    fix k p assume "index2 k = Some p"
    with x2 consider "index1 k = Some p" | "next_addr h1 \<le> p \<and> p < next_addr h2" by blast
    then show "index k = Some p \<or> (next_addr h \<le> p \<and> p < next_addr h2)"
    proof cases
      case 1
      with x1 n2 show ?thesis by fastforce
    next
      case 2
      with n1 show ?thesis by simp
    qed
  qed
  have "found2 = found @ (new1 @ new2)" using f1 f2 by simp
  with ids rng cells idx n1 n2 show ?thesis
    unfolding loop_inv_def st st2 prod.case by (intro conjI exI [of _ "new1 @ new2"]) auto
qed

lemma too_old_agent:
  "read_session fs path = Inr session \<Longrightarrow> NewOpenCodeAgent now fs sp path = Inr a \<Longrightarrow>
     (maxAge > 0 \<and> Since now (oc_lastActivity a) > maxAge) = too_old now maxAge session"
  by (auto simp: NewOpenCodeAgent_def determineStatusFast_def too_old_def)

lemma loop_inv_keep:
  "oc_id a = sd_ID session \<Longrightarrow> \<not> too_old now maxAge session \<Longrightarrow>
   loop_inv now maxAge [session] (index, found, h)
     (index(oc_id a \<mapsto> fst (alloc a h)), found @ [fst (alloc a h)], snd (alloc a h))"
  by (simp add: loop_inv_def alloc_def ids_of_def id_at_def)

lemma loop_inv_drop:
  "too_old now maxAge session \<Longrightarrow>
   loop_inv now maxAge [session] (index, found, h) (index, found, snd (alloc a h))"
  by (simp add: loop_inv_def alloc_def ids_of_def)

lemma Discover_sessionFiles_inv:
  "loop_inv now maxAge (sessions_of_project fs projectPath files) st
     (Discover_sessionFiles now fs storagePath maxAge projectPath files st)"
proof (induction files arbitrary: st)
  case Nil
  show ?case by (simp add: sessions_of_project_def List.map_filter_def loop_inv_refl)
next
  case (Cons e files)
  obtain isDir name where e: "e = (isDir, name)" by (cases e)
  obtain index found h where st: "st = (index, found, h)" by (cases st)
  show ?case
  proof (cases "isDir \<or> \<not> HasSuffix name ''.json''")
    case True
    then have "sessions_of_project fs projectPath (e # files) = sessions_of_project fs projectPath files"
      by (auto simp: sessions_of_project_def List.map_filter_def e)
    then show ?thesis using True Cons.IH [of st] by (simp add: e st)
  next
    case False
    show ?thesis
    proof (cases "NewOpenCodeAgent now fs storagePath (Join projectPath name)")
      case (Inl err)
      then obtain e' where "read_session fs (Join projectPath name) = Inl e'"
        using NewOpenCodeAgent_Inl by blast
      then have "sessions_of_project fs projectPath (e # files) = sessions_of_project fs projectPath files"
        using False by (simp add: sessions_of_project_def List.map_filter_def e)
      then show ?thesis using False Inl Cons.IH [of st] by (simp add: e st)
    next
      case (Inr a)
      then obtain session where rs: "read_session fs (Join projectPath name) = Inr session"
        and ida: "oc_id a = sd_ID session"
        using NewOpenCodeAgent_fields by blast
      have ss: "sessions_of_project fs projectPath ((isDir, name) # files)
              = [session] @ sessions_of_project fs projectPath files"
        using False rs by (simp add: sessions_of_project_def List.map_filter_def)
      have old: "(maxAge > 0 \<and> Since now (oc_lastActivity a) > maxAge) = too_old now maxAge session"
        using rs Inr by (rule too_old_agent)
      show ?thesis
      proof (cases "too_old now maxAge session")
        case True
        have "loop_inv now maxAge ([session] @ sessions_of_project fs projectPath files)
                (index, found, h)
                (Discover_sessionFiles now fs storagePath maxAge projectPath files
                   (index, found, snd (alloc a h)))"
          using loop_inv_drop [OF True] Cons.IH by (rule loop_inv_trans)
        then show ?thesis
          using False Inr old True unfolding st e ss
          by (simp add: split_beta)
      next
        case nold: False
        have "loop_inv now maxAge ([session] @ sessions_of_project fs projectPath files)
                (index, found, h)
                (Discover_sessionFiles now fs storagePath maxAge projectPath files
                   (index(oc_id a \<mapsto> fst (alloc a h)), found @ [fst (alloc a h)], snd (alloc a h)))"
          using loop_inv_keep [OF ida nold] Cons.IH by (rule loop_inv_trans)
        then show ?thesis
          using False Inr old nold unfolding st e ss
          by (auto simp: split_beta)
      qed
    qed
  qed
qed

lemma Discover_projectDirs_inv:
  "loop_inv now maxAge (sessions_of_tree fs sessionBasePath dirs) st
     (Discover_projectDirs now fs storagePath maxAge sessionBasePath dirs st)"
proof (induction dirs arbitrary: st)
  case Nil
  show ?case by (simp add: sessions_of_tree_def loop_inv_refl)
next
  case (Cons e dirs)
  obtain isDir name where e: "e = (isDir, name)" by (cases e)
  show ?case
  proof (cases isDir)
    case False
    then show ?thesis using Cons.IH [of st] by (simp add: e sessions_of_tree_def)
  next
    case True
    have t: "sessions_of_tree fs sessionBasePath (e # dirs)
           = sessions_of_project fs (Join sessionBasePath name)
               (entries_or_nil (ReadDir fs (Join sessionBasePath name)))
             @ sessions_of_tree fs sessionBasePath dirs"
      using True by (simp add: e sessions_of_tree_def)
    show ?thesis
    proof (cases "ReadDir fs (Join sessionBasePath name)")
      case (Entries files)
      have "loop_inv now maxAge
              (sessions_of_project fs (Join sessionBasePath name) files
                 @ sessions_of_tree fs sessionBasePath dirs) st
              (Discover_projectDirs now fs storagePath maxAge sessionBasePath dirs
                 (Discover_sessionFiles now fs storagePath maxAge (Join sessionBasePath name) files st))"
        using Discover_sessionFiles_inv Cons.IH by (rule loop_inv_trans)
      then show ?thesis using True Entries unfolding t by (simp add: e entries_or_nil_def)
    next
      case NotExist
      then show ?thesis using True Cons.IH [of st] unfolding t
        by (simp add: e entries_or_nil_def sessions_of_project_def List.map_filter_def)
    next
      case (ReadError err)
      then show ?thesis using True Cons.IH [of st] unfolding t
        by (simp add: e entries_or_nil_def sessions_of_project_def List.map_filter_def)
    qed
  qed
qed

text \<open>
  What one successful \<open>Discover\<close> returns: the pointers are new, they carry the ids of
  the discoverable sessions that pass the age test, in the order of the tree, and the
  rebuilt index holds new pointers only. The objects that existed are untouched.
\<close>

lemma Provider_Discover_result:
  assumes "Provider_Discover now fs p h = (Inr found, p', h')"
  shows "fp_storagePath p' = fp_storagePath p \<and> fp_maxAge p' = fp_maxAge p
       \<and> next_addr h \<le> next_addr h'
       \<and> (\<forall>q < next_addr h. cells h' q = cells h q)
       \<and> (\<forall>q \<in> set found. next_addr h \<le> q \<and> q < next_addr h')
       \<and> map (id_at h') found
           = map (\<lambda>s. Some (sd_ID s))
               (filter (\<lambda>s. \<not> too_old now (fp_maxAge p) s) (discoverable fs (fp_storagePath p)))
       \<and> (\<forall>k q. fp_agents p' k = Some q \<longrightarrow> next_addr h \<le> q \<and> q < next_addr h')"
proof (cases "ReadDir fs (Join (fp_storagePath p) ''session'')")
  case NotExist
  then show ?thesis using assms
    by (auto simp: Provider_Discover_def Let_def discoverable_def entries_or_nil_def
          sessions_of_tree_def)
next
  case (ReadError err)
  then show ?thesis using assms by (simp add: Provider_Discover_def Let_def)
next
  case (Entries dirs)
  obtain index fnd hh where d: "Discover_projectDirs now fs (fp_storagePath p) (fp_maxAge p)
      (Join (fp_storagePath p) ''session'') dirs (Map.empty, [], h) = (index, fnd, hh)"
    by (cases "Discover_projectDirs now fs (fp_storagePath p) (fp_maxAge p)
      (Join (fp_storagePath p) ''session'') dirs (Map.empty, [], h)") auto
  have r: "found = fnd" "p' = p\<lparr>fp_agents := index\<rparr>" "h' = hh"
    using assms Entries d by (simp_all add: Provider_Discover_def Let_def)
  have "loop_inv now (fp_maxAge p) (sessions_of_tree fs (Join (fp_storagePath p) ''session'') dirs)
          (Map.empty, [], h) (index, fnd, hh)"
    using Discover_projectDirs_inv [where now = now and maxAge = "fp_maxAge p" and fs = fs
        and sessionBasePath = "Join (fp_storagePath p) ''session''" and dirs = dirs
        and st = "(Map.empty, [], h)" and storagePath = "fp_storagePath p"]
    unfolding d .
  then show ?thesis
    unfolding r by (auto simp: loop_inv_def discoverable_def Entries entries_or_nil_def ids_of_def)
qed

text \<open>
  The sibling path. The CLI provider's \<open>Discover\<close> never replaces an entry of its
  index: an id that is indexed keeps its pointer, whatever the command answers. On
  the same answer twice, the second call returns the pointer of the first.
\<close>

lemma CLI_Discover_loop_keeps_index:
  "CLI_Discover_loop now maxAge listed (index, found, h) = (index', found', h') \<Longrightarrow>
   index k = Some q \<Longrightarrow> index' k = Some q"
proof (induction listed arbitrary: index found h)
  case Nil
  then show ?case by simp
next
  case (Cons session rest)
  show ?case
  proof (cases "maxAge > 0 \<and> UnixMilli (cs_Updated session) < now - maxAge")
    case True
    then have "CLI_Discover_loop now maxAge rest (index, found, h) = (index', found', h')"
      using Cons.prems(1) by simp
    then show ?thesis using Cons.prems(2) by (rule Cons.IH)
  next
    case False
    show ?thesis
    proof (cases "index (cs_ID session)")
      case (Some existing)
      have "CLI_Discover_loop now maxAge rest
              (index, found @ [existing],
               h\<lparr>cli_cells := (cli_cells h)
                    (existing := map_option (CLI_Update now session) (cli_cells h existing))\<rparr>)
            = (index', found', h')"
        using Cons.prems(1) False Some by (auto split: if_splits)
      then show ?thesis using Cons.prems(2) by (rule Cons.IH)
    next
      case None
      have "CLI_Discover_loop now maxAge rest
              (index(cs_ID session \<mapsto> cli_next h), found @ [cli_next h],
               h\<lparr>cli_cells := (cli_cells h)(cli_next h \<mapsto> NewOpenCodeAgentFromCLI now session),
                 cli_next := Suc (cli_next h)\<rparr>)
            = (index', found', h')"
        using Cons.prems(1) False None by (auto split: if_splits)
      moreover have "(index(cs_ID session \<mapsto> cli_next h)) k = Some q"
        using Cons.prems(2) None by auto
      ultimately show ?thesis by (rule Cons.IH)
    qed
  qed
qed

lemma CLI_Provider_Discover_keeps_instances:
  assumes "CLI_Provider_Discover now fetched p h = (r, p', h')"
      and "cp_agents p k = Some q"
  shows "cp_agents p' k = Some q"
proof (cases fetched)
  case (Inl err)
  then show ?thesis using assms by (simp add: CLI_Provider_Discover_def)
next
  case (Inr listed)
  obtain index found hh where
    l: "CLI_Discover_loop now (cp_maxAge p) listed (cp_agents p, [], h) = (index, found, hh)"
    by (cases "CLI_Discover_loop now (cp_maxAge p) listed (cp_agents p, [], h)") auto
  have "index k = Some q"
    using l assms(2) by (rule CLI_Discover_loop_keeps_index)
  moreover have "p' = p\<lparr>cp_agents := index\<rparr>"
    using assms(1) Inr l by (simp add: CLI_Provider_Discover_def)
  ultimately show ?thesis by simp
qed

lemma CLI_Discover_returns_same_instance:
  "fst demo_cli_first = Inr [0] \<and> fst demo_cli_second = Inr [0]
   \<and> cp_agents (fst (snd demo_cli_first)) ''ses_A'' = Some 0
   \<and> cp_agents (fst (snd demo_cli_second)) ''ses_A'' = Some 0"
  by code_simp

text \<open>
  Claim C7 on the code: the file-watch provider's \<open>Discover\<close> does not preserve
  identity. On the tree of \<open>ses_A\<close>, unchanged between two calls five seconds apart,
  the first call returns and indexes the agent object at address 0 under the id
  \<open>ses_A\<close>; the second call clears the index, builds a new object at address 1 and
  returns and indexes that one under the same id. The agent that survives across the
  two calls is a freshly built copy, where the CLI provider's \<open>Discover\<close> keeps the
  object it has.
\<close>

theorem Discover_builds_new_instance:
  "fst demo_first = Inr [0] \<and> fst demo_second = Inr [1]
   \<and> Provider_Get (fst (snd demo_first)) ''ses_A'' = Inr 0
   \<and> Provider_Get (fst (snd demo_second)) ''ses_A'' = Inr 1"
  by code_simp

text \<open>
  The ids do depend on the clock: two days later the session \<open>ses_A\<close> is older than
  the maximal age of one day, and \<open>Discover\<close> on the same tree returns no agent.
\<close>

lemma Discover_ids_depend_on_clock:
  "fst (Provider_Discover demo_now demo_storage demo_provider demo_heap) = Inr [0]
   \<and> fst (Provider_Discover (demo_now + 2 * Day) demo_storage demo_provider demo_heap) = Inr []"
  by code_simp

text \<open>
  In general: take two successive successful calls of the file-watch provider's
  \<open>Discover\<close> on the same storage tree, such that no session passes the maximal age
  between the two calls. They return agents with the same ids, in the same order, but
  no pointer returned by the second call was returned by the first, and no entry of
  the index after the second call is a pointer that the first call returned or
  indexed.
\<close>

lemma Discover_same_ids_fresh_instances:
  assumes first: "Provider_Discover now1 fs p h = (Inr found1, p1, h1)"
      and second: "Provider_Discover now2 fs p1 h1 = (Inr found2, p2, h2)"
      and age: "\<forall>s \<in> set (discoverable fs (fp_storagePath p)).
                  too_old now1 (fp_maxAge p) s = too_old now2 (fp_maxAge p) s"
  shows "map (id_at h2) found2 = map (id_at h1) found1
       \<and> set found1 \<inter> set found2 = {}
       \<and> (\<forall>k q. fp_agents p2 k = Some q \<longrightarrow> q \<notin> set found1 \<and> (\<forall>k'. fp_agents p1 k' \<noteq> Some q))"
proof -
  note r1 = Provider_Discover_result [OF first]
  note r2 = Provider_Discover_result [OF second]
  have sp: "fp_storagePath p1 = fp_storagePath p" and ma: "fp_maxAge p1 = fp_maxAge p"
    using r1 by simp_all
  have "filter (\<lambda>s. \<not> too_old now1 (fp_maxAge p) s) (discoverable fs (fp_storagePath p))
      = filter (\<lambda>s. \<not> too_old now2 (fp_maxAge p) s) (discoverable fs (fp_storagePath p))"
    using age by (intro filter_cong) auto
  then have ids: "map (id_at h2) found2 = map (id_at h1) found1"
    using r1 r2 unfolding sp ma by simp
  have lo: "\<forall>q \<in> set found1. q < next_addr h1" using r1 by blast
  have hi: "\<forall>q \<in> set found2. next_addr h1 \<le> q" using r2 by blast
  have disj: "set found1 \<inter> set found2 = {}" using lo hi by fastforce
  have idx2: "\<forall>k q. fp_agents p2 k = Some q \<longrightarrow> next_addr h1 \<le> q" using r2 by blast
  have idx1: "\<forall>k q. fp_agents p1 k = Some q \<longrightarrow> q < next_addr h1" using r1 by blast
  have fresh: "\<forall>k q. fp_agents p2 k = Some q \<longrightarrow> q \<notin> set found1 \<and> (\<forall>k'. fp_agents p1 k' \<noteq> Some q)"
  proof (intro allI impI conjI)
    fix k q assume a: "fp_agents p2 k = Some q"
    then have g: "next_addr h1 \<le> q" using idx2 by blast
    show "q \<notin> set found1" using g lo by fastforce
    show "fp_agents p1 k' \<noteq> Some q" for k' using g idx1 by fastforce
  qed
  from ids disj fresh show ?thesis by blast
qed

text \<open>
  The hypotheses hold of the two calls on the tree of \<open>ses_A\<close>, five seconds apart:
  both return one agent with the id \<open>ses_A\<close>; the pointers are 0 and 1.
\<close>

lemma Discover_same_ids_fresh_instances_on_demo:
  "Provider_Discover demo_now demo_storage demo_provider demo_heap
     = (Inr [0], fst (snd demo_first), snd (snd demo_first))
   \<and> Provider_Discover (demo_now + 5 * Second) demo_storage
         (fst (snd demo_first)) (snd (snd demo_first))
     = (Inr [1], fst (snd demo_second), snd (snd demo_second))
   \<and> map (id_at (snd (snd demo_second))) [1] = map (id_at (snd (snd demo_first))) [0]
   \<and> id_at (snd (snd demo_first)) 0 = Some ''ses_A''
   \<and> set [0 :: nat] \<inter> set [1] = {}"
proof -
  have f: "fst demo_first = Inr [0]" by code_simp
  have s: "fst demo_second = Inr [1]" by code_simp
  have first: "Provider_Discover demo_now demo_storage demo_provider demo_heap
     = (Inr [0], fst (snd demo_first), snd (snd demo_first))"
    using f unfolding demo_first_def by (metis prod.collapse)
  have second: "Provider_Discover (demo_now + 5 * Second) demo_storage
         (fst (snd demo_first)) (snd (snd demo_first))
     = (Inr [1], fst (snd demo_second), snd (snd demo_second))"
    using s unfolding demo_second_def by (metis prod.collapse)
  have age: "\<forall>s \<in> set (discoverable demo_storage (fp_storagePath demo_provider)).
       too_old demo_now (fp_maxAge demo_provider) s
         = too_old (demo_now + 5 * Second) (fp_maxAge demo_provider) s"
    by code_simp
  have i: "id_at (snd (snd demo_first)) 0 = Some ''ses_A''" by code_simp
  show ?thesis
    using first second i Discover_same_ids_fresh_instances [OF first second age]
    by simp
qed

subsection \<open>The store\<close>

lemma insort_key_snoc:
  "f a \<le> f x \<Longrightarrow> insort_key f a (ys @ [x]) = insort_key f a ys @ [x]"
  by (induction ys) simp_all

lemma sort_key_snoc:
  "\<forall>y \<in> set xs. f y \<le> f x \<Longrightarrow> sort_key f (xs @ [x]) = sort_key f xs @ [x]"
proof (induction xs)
  case Nil
  show ?case by simp
next
  case (Cons a xs)
  then have "sort_key f (xs @ [x]) = sort_key f xs @ [x]" by simp
  moreover have "f a \<le> f x" using Cons.prems by simp
  ultimately show ?case by (simp add: insort_key_snoc)
qed

lemma foldl_append_concat: "foldl (\<lambda>out c. out @ c) acc cs = acc @ concat cs"
  by (induction cs arbitrary: acc) simp_all

lemma GetOutput_concat:
  "GetOutput s db =
     concat (map chunk (sort_key chunk_id (filter (\<lambda>r. chunk_session_id r = s) (output_chunks db))))"
  by (simp add: GetOutput_def foldl_append_concat)

text \<open>The bound on the row ids holds in the fresh database and is kept by every method.\<close>

lemma New_bounded: "chunk_ids_bounded New"
  by (simp add: chunk_ids_bounded_def New_def)

lemma SaveSession_bounded:
  "chunk_ids_bounded db \<Longrightarrow> chunk_ids_bounded (SaveSession rec db)"
  by (simp add: chunk_ids_bounded_def SaveSession_def)

lemma AppendOutput_bounded:
  "chunk_ids_bounded db \<Longrightarrow> chunk_ids_bounded (AppendOutput now s c db)"
  by (auto simp: chunk_ids_bounded_def AppendOutput_def)

lemma Cleanup_bounded:
  "chunk_ids_bounded db \<Longrightarrow> chunk_ids_bounded (Cleanup n now db)"
  by (auto simp: chunk_ids_bounded_def Cleanup_def Let_def)

lemma GetOutput_AppendOutput:
  assumes "chunk_ids_bounded db"
  shows "GetOutput s (AppendOutput now s' c db) = GetOutput s db @ (if s' = s then c else [])"
proof (cases "s' = s")
  case False
  then show ?thesis by (simp add: GetOutput_concat AppendOutput_def)
next
  case True
  let ?old = "filter (\<lambda>r. chunk_session_id r = s) (output_chunks db)"
  let ?row = "\<lparr>chunk_id = Suc (output_chunks_seq db), chunk_session_id = s, chunk = c,
               chunk_timestamp = now\<rparr>"
  have "\<forall>y \<in> set ?old. chunk_id y \<le> chunk_id ?row"
    using assms by (auto simp: chunk_ids_bounded_def)
  then have "sort_key chunk_id (?old @ [?row]) = sort_key chunk_id ?old @ [?row]"
    by (rule sort_key_snoc)
  then show ?thesis using True by (simp add: GetOutput_concat AppendOutput_def)
qed

lemma GetOutput_AppendOutputs:
  "chunk_ids_bounded db \<Longrightarrow>
   GetOutput s (AppendOutputs calls db)
     = GetOutput s db @ concat (map (\<lambda>(now, s', c). c) (filter (\<lambda>(now, s', c). s' = s) calls))"
proof (induction calls db rule: AppendOutputs.induct)
  case (1 db)
  show ?case by simp
next
  case (2 now sessionID chunk' calls db)
  have b: "chunk_ids_bounded (AppendOutput now sessionID chunk' db)"
    using "2.prems" by (rule AppendOutput_bounded)
  show ?case
    using "2.IH" [OF b] GetOutput_AppendOutput [OF "2.prems", of s now sessionID chunk']
    by simp
qed

text \<open>
  Claim C8. In a database whose chunk ids do not exceed the counter (every database
  that the store produces), \<open>AppendOutput(s, c1)\<close> followed by \<open>AppendOutput(s, c2)\<close>
  makes \<open>GetOutput(s)\<close> return what it returned before followed by \<open>c1\<close> and \<open>c2\<close>,
  hence exactly \<open>c1\<close> followed by \<open>c2\<close> for a session without earlier output; and after
  any run of \<open>AppendOutput\<close> calls \<open>GetOutput(s)\<close> returns the earlier output followed by
  the chunks appended for \<open>s\<close>, in the order of the calls.
\<close>

theorem GetOutput_insertion_order:
  assumes "chunk_ids_bounded db"
  shows "GetOutput s (AppendOutput t2 s c2 (AppendOutput t1 s c1 db)) = GetOutput s db @ c1 @ c2
       \<and> (GetOutput s db = [] \<longrightarrow>
            GetOutput s (AppendOutput t2 s c2 (AppendOutput t1 s c1 db)) = c1 @ c2)
       \<and> GetOutput s (AppendOutputs calls db)
           = GetOutput s db
             @ concat (map (\<lambda>(now, s', c). c) (filter (\<lambda>(now, s', c). s' = s) calls))"
proof -
  have b: "chunk_ids_bounded (AppendOutput t1 s c1 db)"
    using assms by (rule AppendOutput_bounded)
  have two: "GetOutput s (AppendOutput t2 s c2 (AppendOutput t1 s c1 db)) = GetOutput s db @ c1 @ c2"
    using GetOutput_AppendOutput [OF b, of s t2 s c2] GetOutput_AppendOutput [OF assms, of s t1 s c1]
    by simp
  from two GetOutput_AppendOutputs [OF assms, of s calls] show ?thesis by simp
qed

text \<open>
  Witness for C8: in the fresh database, two chunks for \<open>ses_A\<close> come back joined, and
  a chunk for another session in between does not show.
\<close>

theorem GetOutput_insertion_order_witness:
  "chunk_ids_bounded New
   \<and> GetOutput ''ses_A'' New = []
   \<and> GetOutput ''ses_A'' (AppendOutput 20 ''ses_A'' ''world'' (AppendOutput 10 ''ses_A'' ''hello '' New))
       = ''hello world''
   \<and> GetOutput ''ses_A''
       (AppendOutputs [(10, ''ses_A'', ''a''), (11, ''ses_B'', ''x''), (12, ''ses_A'', ''b'')] New)
       = ''ab''"
proof -
  have e: "GetOutput ''ses_A'' New = []" by (simp add: GetOutput_def New_def)
  show ?thesis
    using New_bounded e
      GetOutput_insertion_order [OF New_bounded, of "''ses_A''" 20 "''world''" 10 "''hello ''"
        "[(10, ''ses_A'', ''a''), (11, ''ses_B'', ''x''), (12, ''ses_A'', ''b'')]"]
    by simp
qed

text \<open>
  A row whose \<open>end_time\<close> is \<open>NULL\<close> and its chunks are kept by \<open>Cleanup\<close>, whatever the
  argument. No method of the store writes such a row.
\<close>

lemma Cleanup_keeps_null_end_time:
  assumes "sessions db id' = Some row" and "c_end_time row = None"
  shows "sessions (Cleanup maxAgeDays now db) id' = Some row
       \<and> filter (\<lambda>r. chunk_session_id r = id') (output_chunks (Cleanup maxAgeDays now db))
           = filter (\<lambda>r. chunk_session_id r = id') (output_chunks db)"
proof -
  have "\<not> expired c row" for c using assms(2) by (simp add: expired_def)
  then show ?thesis using assms(1)
    by (auto simp: Cleanup_def Let_def intro: filter_cong)
qed

lemma SaveSession_end_time_not_null:
  "\<exists>row. sessions (SaveSession rec db) (sr_ID rec) = Some row \<and> c_end_time row = Some (sr_EndTime rec)"
  by (simp add: SaveSession_def split: option.splits)

text \<open>
  Whatever else the record holds and whatever the database held: a session saved with
  an unset \<open>EndTime\<close> is deleted by every \<open>Cleanup\<close> whose cutoff is after year 1.
\<close>

lemma Cleanup_deletes_unset_end_time:
  assumes "sr_EndTime rec = zero_Time" and "zero_Time < now - maxAgeDays * Day"
  shows "sessions (Cleanup maxAgeDays now (SaveSession rec db)) (sr_ID rec) = None"
  using assms
  by (simp add: Cleanup_def SaveSession_def Let_def expired_def split: option.splits)

text \<open>
  Claim C2 on the code: a session that is still active is deleted by \<open>Cleanup(0)\<close>.
  The manager saves the projection of the running agent \<open>ses_A\<close>, whose \<open>EndTime\<close> was
  never set; a chunk of output is appended. The session and its output can be read
  back. After \<open>Cleanup(0)\<close> the session row is gone (\<open>GetSession\<close> finds no row) and so is
  its output: \<open>SaveSession\<close> stored the zero time, not \<open>NULL\<close>, in \<open>end_time\<close>, and the
  zero time (year 1) is before the cutoff.
\<close>

theorem Cleanup_deletes_live_session:
  "GetSession ''ses_A'' (SaveSession demo_projection New) = Inr demo_projection
   \<and> sr_EndTime demo_projection = zero_Time
   \<and> GetOutput ''ses_A'' (AppendOutput 1793404795000000000 ''ses_A'' ''hello''
        (SaveSession demo_projection New)) = ''hello''
   \<and> GetSession ''ses_A''
       (Cleanup 0 1793404800000000000
          (AppendOutput 1793404795000000000 ''ses_A'' ''hello'' (SaveSession demo_projection New)))
       = Inl (Error ''sql: no rows in result set'')
   \<and> GetOutput ''ses_A''
       (Cleanup 0 1793404800000000000
          (AppendOutput 1793404795000000000 ''ses_A'' ''hello'' (SaveSession demo_projection New)))
       = []"
  by (simp add: GetSession_def GetOutput_def Cleanup_def AppendOutput_def SaveSession_def New_def
        demo_projection_def live_projection_def expired_def zero_Time_def Day_def Minute_def
        Second_def)

subsection \<open>The merged channel of WatchAll\<close>

lemma step_keeps_merged_open:
  "step a s = Some s' \<Longrightarrow> closed (merged s') = closed (merged s)"
  by (cases a) (auto split: if_splits list.splits forwarder.splits)

lemma run_keeps_merged_open:
  "run acts s0 = Some s \<Longrightarrow> closed (merged s) = closed (merged s0)"
proof (induction acts arbitrary: s0)
  case Nil
  then show ?case by simp
next
  case (Cons a acts)
  then obtain s1 where 1: "step a s0 = Some s1" and 2: "run acts s1 = Some s"
    by (auto split: option.splits)
  from Cons.IH [OF 2] step_keeps_merged_open [OF 1] show ?case by simp
qed

text \<open>
  Claim C4 on the code: the merged channel is never closed. \<open>WatchAll\<close> has no
  \<open>close(merged)\<close>, and no step of a provider, of a forwarder, of the consumer or of the
  cancellation closes it: in every state that a run reaches from the state in which
  \<open>WatchAll\<close> returns, also after the context is cancelled and all provider channels
  are closed and drained, the merged channel is open.
\<close>

theorem WatchAll_never_closes_merged:
  "run acts (WatchAll chs) = Some s \<Longrightarrow> \<not> closed (merged s)"
  using run_keeps_merged_open [of acts "WatchAll chs" s]
  by (simp add: WatchAll_def make_chan_def)

text \<open>
  Witness for C4: a run with one provider that ends with the context cancelled, the
  provider's channel closed and empty and the forwarder returned; the merged channel
  is empty and still open.
\<close>

theorem WatchAll_never_closes_merged_witness:
  "run demo_run (WatchAll [make_chan]) = Some demo_drained
   \<and> all_drained demo_drained \<and> \<not> closed (merged demo_drained)"
proof -
  have r: "run demo_run (WatchAll [make_chan]) = Some demo_drained"
    by (simp add: demo_run_def demo_drained_def WatchAll_def make_chan_def chan_cap_def)
  have d: "all_drained demo_drained"
    by (simp add: all_drained_def demo_drained_def)
  from r d WatchAll_never_closes_merged [OF r] show ?thesis by simp
qed


end
